theory Spec2Isabelle
  imports Main "HOL-Library.Word"
begin

section \<open>Data model\<close>

text \<open>
  Frame ids index the array \<^verbatim>\<open>pages_\<close>; they are natural numbers here (the constructor
  fills the free list with \<^verbatim>\<open>0 .. pool_size - 1\<close>).

  Modelled from the spec: the declaration of \<^verbatim>\<open>page_id_t\<close> and the constant
  \<^verbatim>\<open>INVALID_PAGE_ID\<close> (both live in a header that is not part of the sources). The spec
  calls a page id an unbounded integer and the sentinel "commonly -1", so page ids are
  \<^typ>\<open>int\<close> and the sentinel is \<open>-1\<close>; an id of fixed width that wraps around is outside
  this model.
\<close>

type_synonym frame_id_t = nat
type_synonym page_id_t = int
type_synonym byte = "8 word"

definition INVALID_PAGE_ID :: page_id_t where
  "INVALID_PAGE_ID = -1"

text \<open>
  The class \<^verbatim>\<open>Page\<close>: its buffer, the id of the page it holds, its pin count and its
  dirty flag (the members \<^verbatim>\<open>data_\<close>, \<^verbatim>\<open>page_id_\<close>, \<^verbatim>\<open>pin_count_\<close>, \<^verbatim>\<open>is_dirty_\<close>).
\<close>

record Page =
  data :: "byte list"
  page_id :: page_id_t
  pin_count :: int
  is_dirty :: bool

text \<open>
  Modelled from the spec: \<^verbatim>\<open>Page::ResetMemory\<close> (declared in the missing header) zeroes
  the buffer; the buffer keeps its size.
\<close>

definition ResetMemory :: "Page \<Rightarrow> Page" where
  "ResetMemory p = p\<lparr>data := replicate (length (data p)) 0\<rparr>"

text \<open>
  Modelled from the spec: a freshly constructed \<^verbatim>\<open>Page\<close> holds no page, is unpinned and
  clean, and its buffer of \<open>PAGE_SIZE\<close> bytes is zeroed. \<open>PAGE_SIZE\<close> is a constant of the
  missing header and is taken as a parameter.
\<close>

definition new_Page :: "nat \<Rightarrow> Page" where
  "new_Page PAGE_SIZE =
     \<lparr>data = replicate PAGE_SIZE 0, page_id = INVALID_PAGE_ID, pin_count = 0, is_dirty = False\<rparr>"

subsection \<open>The ways a call can leave other than by returning\<close>

datatype fault =
    AssertFailed    \<comment> \<open>a \<^verbatim>\<open>BUSTUB_ASSERT\<close> or \<^verbatim>\<open>assert\<close> fired\<close>
  | IOFailed        \<comment> \<open>the disk manager failed and the failure went up the call stack\<close>
  | Uninitialised   \<comment> \<open>\<^verbatim>\<open>frame_id\<close> was read although \<^verbatim>\<open>Victim\<close> never wrote it\<close>
  | Deadlock        \<comment> \<open>the thread locks a plain mutex that it holds already: the call never returns\<close>

section \<open>The LRU replacer (lru\_replacer.cpp)\<close>

text \<open>
  \<^verbatim>\<open>list_t_\<close> holds the frame ids, least recently unpinned first; \<^verbatim>\<open>size\<close> is the
  capacity given to the constructor.
\<close>

record LRUReplacer =
  size_lru :: nat
  list_t :: "frame_id_t list"

definition LRUReplacer_new :: "nat \<Rightarrow> LRUReplacer" where
  "LRUReplacer_new num_pages = \<lparr>size_lru = num_pages, list_t = []\<rparr>"

definition Size :: "LRUReplacer \<Rightarrow> nat" where
  "Size r = length (list_t r)"

text \<open>
  \<^verbatim>\<open>Victim\<close> returns \<^verbatim>\<open>false\<close> and leaves \<^verbatim>\<open>*frame_id\<close> alone when the list is empty
  (\<open>None\<close>); otherwise it writes the front element to \<^verbatim>\<open>*frame_id\<close>, erases it and
  returns \<^verbatim>\<open>true\<close>.
\<close>

definition Victim :: "LRUReplacer \<Rightarrow> frame_id_t option \<times> LRUReplacer" where
  "Victim r =
     (if Size r = 0 then (None, r)
      else (Some (hd (list_t r)), r\<lparr>list_t := tl (list_t r)\<rparr>))"

text \<open>
  \<^verbatim>\<open>std::find\<close>: the position of the first element equal to \<open>x\<close>, the length of the
  list (the end iterator) when there is none.
\<close>

fun std_find :: "frame_id_t list \<Rightarrow> frame_id_t \<Rightarrow> nat" where
  "std_find [] x = 0"
| "std_find (y # ys) x = (if y = x then 0 else Suc (std_find ys x))"

text \<open>\<^verbatim>\<open>std::list::erase\<close> of the element at a position.\<close>

definition erase_at :: "nat \<Rightarrow> frame_id_t list \<Rightarrow> frame_id_t list" where
  "erase_at i xs = take i xs @ drop (Suc i) xs"

definition Pin :: "frame_id_t \<Rightarrow> LRUReplacer \<Rightarrow> LRUReplacer" where
  "Pin frame_id r =
     (let iter = std_find (list_t r) frame_id in
      if iter = length (list_t r) then r
      else r\<lparr>list_t := erase_at iter (list_t r)\<rparr>)"

definition Unpin :: "frame_id_t \<Rightarrow> LRUReplacer \<Rightarrow> LRUReplacer" where
  "Unpin frame_id r =
     (if count_list (list_t r) frame_id \<noteq> 0 then r
      else if length (list_t r) \<ge> size_lru r then r
      else r\<lparr>list_t := list_t r @ [frame_id]\<rparr>)"

text \<open>
  The calls a client can make on a replacer, and the replacer that the constructor with
  \<open>num_pages\<close> yields after a sequence of such calls (results dropped).
\<close>

datatype lru_call = CallVictim | CallPin frame_id_t | CallUnpin frame_id_t

fun lru_apply :: "LRUReplacer \<Rightarrow> lru_call \<Rightarrow> LRUReplacer" where
  "lru_apply r CallVictim = snd (Victim r)"
| "lru_apply r (CallPin f) = Pin f r"
| "lru_apply r (CallUnpin f) = Unpin f r"

definition lru_run :: "nat \<Rightarrow> lru_call list \<Rightarrow> LRUReplacer" where
  "lru_run num_pages cs = foldl lru_apply (LRUReplacer_new num_pages) cs"

section \<open>The disk manager\<close>

text \<open>
  Modelled from the spec: the disk manager (an external collaborator, not part of the
  sources). \<^verbatim>\<open>WritePage\<close> persists a buffer under a page id; \<^verbatim>\<open>ReadPage\<close> yields the
  persisted bytes of a page id and may fail. Which reads fail is a property of the disk
  (\<open>read_fails\<close>). Every call is recorded in \<open>calls\<close>, oldest first, so that the order of
  the disk traffic can be stated. A failing write is not modelled.
\<close>

datatype io_event = WriteEv page_id_t "byte list" | ReadEv page_id_t

record DiskManager =
  persisted :: "page_id_t \<Rightarrow> byte list"
  read_fails :: "page_id_t \<Rightarrow> bool"
  calls :: "io_event list"

definition WritePage :: "page_id_t \<Rightarrow> byte list \<Rightarrow> DiskManager \<Rightarrow> DiskManager" where
  "WritePage pid buf dm =
     dm\<lparr>persisted := (persisted dm)(pid := buf), calls := calls dm @ [WriteEv pid buf]\<rparr>"

definition ReadPage :: "page_id_t \<Rightarrow> DiskManager \<Rightarrow> byte list option \<times> DiskManager" where
  "ReadPage pid dm =
     (if read_fails dm pid then None else Some (persisted dm pid),
      dm\<lparr>calls := calls dm @ [ReadEv pid]\<rparr>)"

section \<open>The buffer pool manager instance (buffer\_pool\_manager\_instance.cpp)\<close>

text \<open>
  The page table is a \<^verbatim>\<open>std::unordered_map\<close> from page id to frame id. It is kept as an
  association list: \<^verbatim>\<open>count\<close> and \<^verbatim>\<open>at\<close> are \<^const>\<open>map_of\<close>, \<^verbatim>\<open>insert\<close> adds an entry
  only when the key is absent (it never overwrites), \<^verbatim>\<open>erase\<close> drops the key. The order
  of the list is the order in which \<^verbatim>\<open>FlushAllPgsImp\<close> visits the entries.
\<close>

type_synonym page_table_t = "(page_id_t \<times> frame_id_t) list"

definition pt_insert :: "page_id_t \<Rightarrow> frame_id_t \<Rightarrow> page_table_t \<Rightarrow> page_table_t" where
  "pt_insert k v pt = (if map_of pt k = None then pt @ [(k, v)] else pt)"

definition pt_erase :: "page_id_t \<Rightarrow> page_table_t \<Rightarrow> page_table_t" where
  "pt_erase k pt = filter (\<lambda>e. fst e \<noteq> k) pt"

text \<open>
  The members of the class. The latch is left out: each operation is modelled as running
  alone from its first line to its return, which is what holding the latch is for. The log
  manager is stored by the constructor and never used.
\<close>

record BufferPoolManagerInstance =
  pool_size :: nat
  num_instances :: nat
  instance_index :: nat
  next_page_id :: page_id_t
  pages :: "Page list"
  replacer :: LRUReplacer
  free_list :: "frame_id_t list"
  page_table :: page_table_t
  disk_manager :: DiskManager

text \<open>
  The constructor: the member initialisers, the two assertions, the array of pages, the
  replacer and the free list \<open>0, 1, ..., pool_size - 1\<close>.
\<close>

definition BufferPoolManagerInstance_new ::
  "nat \<Rightarrow> nat \<Rightarrow> nat \<Rightarrow> nat \<Rightarrow> DiskManager \<Rightarrow> fault + BufferPoolManagerInstance" where
  "BufferPoolManagerInstance_new PAGE_SIZE pool_sz num_inst inst_index dm =
     (if \<not> num_inst > 0 then Inl AssertFailed
      else if \<not> inst_index < num_inst then Inl AssertFailed
      else Inr \<lparr>pool_size = pool_sz, num_instances = num_inst, instance_index = inst_index,
                next_page_id = int inst_index,
                pages = replicate pool_sz (new_Page PAGE_SIZE),
                replacer = LRUReplacer_new pool_sz,
                free_list = [0..<pool_sz],
                page_table = [],
                disk_manager = dm\<rparr>)"

definition FlushPgImp ::
  "page_id_t \<Rightarrow> BufferPoolManagerInstance \<Rightarrow> bool \<times> BufferPoolManagerInstance" where
  "FlushPgImp pid s =
     (case map_of (page_table s) pid of
        None \<Rightarrow> (False, s)
      | Some fid \<Rightarrow>
          let page = pages s ! fid in
          if \<not> is_dirty page then (True, s)
          else (True, s\<lparr>disk_manager := WritePage pid (data page) (disk_manager s),
                         pages := (pages s)[fid := page\<lparr>is_dirty := False\<rparr>]\<rparr>))"

fun flush_entries :: "page_table_t \<Rightarrow> BufferPoolManagerInstance \<Rightarrow> BufferPoolManagerInstance" where
  "flush_entries [] s = s"
| "flush_entries (v # vs) s =
     (let page = pages s ! snd v in
      if \<not> is_dirty page then flush_entries vs s
      else flush_entries vs
             (s\<lparr>disk_manager := WritePage (fst v) (data page) (disk_manager s),
                pages := (pages s)[snd v := page\<lparr>is_dirty := False\<rparr>]\<rparr>))"

definition FlushAllPgsImp :: "BufferPoolManagerInstance \<Rightarrow> BufferPoolManagerInstance" where
  "FlushAllPgsImp s = flush_entries (page_table s) s"

definition ValidatePageId :: "page_id_t \<Rightarrow> BufferPoolManagerInstance \<Rightarrow> bool" where
  "ValidatePageId pid s = (pid mod int (num_instances s) = int (instance_index s))"

definition AllocatePage ::
  "BufferPoolManagerInstance \<Rightarrow> (fault + page_id_t) \<times> BufferPoolManagerInstance" where
  "AllocatePage s =
     (let next = next_page_id s;
          s1 = s\<lparr>next_page_id := next_page_id s + int (num_instances s)\<rparr>
      in if ValidatePageId next s1 then (Inr next, s1) else (Inl AssertFailed, s1))"

text \<open>
  The block that \<^verbatim>\<open>NewPgImp\<close> (lines 91-108) and \<^verbatim>\<open>FetchPgImp\<close> (lines 143-158) share
  word for word: take the front of the free list when there is one; otherwise ask the
  replacer for a victim, flush the victim's page when the frame is dirty and erase the
  victim's page id from the page table. The result \<open>None\<close> stands for a \<^verbatim>\<open>frame_id\<close>
  that \<^verbatim>\<open>Victim\<close> did not write.

  Modelled from the spec: the kind of \<^verbatim>\<open>latch_\<close> (declared in the missing header). The
  block calls \<^verbatim>\<open>FlushPgImp\<close> (lines 105 and 155) while the caller holds \<^verbatim>\<open>latch_\<close>
  (lines 80 and 128), and \<^verbatim>\<open>FlushPgImp\<close> locks \<^verbatim>\<open>latch_\<close> again (line 52). The spec has
  \<^verbatim>\<open>NewPage\<close> return after the write-back of a dirty victim (its end-to-end scenario
  1), so the nested call is modelled as one that returns, that is, \<^verbatim>\<open>latch_\<close> as a
  mutex its holder may lock again. With a mutex that may not be locked twice the nested
  call never returns; \<open>nested_flush\<close> below names the states in which the block
  makes that call, and \<open>pick_frame_latched\<close>, \<open>NewPgImp_latched\<close> and
  \<open>FetchPgImp_latched\<close> further below take the kind of \<^verbatim>\<open>latch_\<close> as a parameter.
\<close>

definition pick_frame ::
  "BufferPoolManagerInstance \<Rightarrow> frame_id_t option \<times> BufferPoolManagerInstance" where
  "pick_frame s =
     (if free_list s \<noteq> [] then
        (Some (hd (free_list s)), s\<lparr>free_list := tl (free_list s)\<rparr>)
      else
        (case Victim (replacer s) of
           (None, r) \<Rightarrow> (None, s\<lparr>replacer := r\<rparr>)
         | (Some fid, r) \<Rightarrow>
             let s1 = s\<lparr>replacer := r\<rparr>;
                 s2 = (if is_dirty (pages s1 ! fid)
                       then snd (FlushPgImp (page_id (pages s1 ! fid)) s1) else s1);
                 s3 = s2\<lparr>page_table := pt_erase (page_id (pages s2 ! fid)) (page_table s2)\<rparr>
             in (Some fid, s3)))"

text \<open>
  The states in which the block above reaches the nested call of \<^verbatim>\<open>FlushPgImp\<close>: the
  free list is empty, the replacer is not, and the replacer's front frame is dirty.
\<close>

definition nested_flush :: "BufferPoolManagerInstance \<Rightarrow> bool" where
  "nested_flush s =
     (free_list s = [] \<and> Size (replacer s) \<noteq> 0
      \<and> is_dirty (pages s ! hd (list_t (replacer s))))"

text \<open>\<^verbatim>\<open>NewPgImp\<close> returns the new page id and the frame (the pointer \<^verbatim>\<open>pages_ + frame_id\<close>).\<close>

definition NewPgImp ::
  "BufferPoolManagerInstance \<Rightarrow>
     (fault + (page_id_t \<times> frame_id_t) option) \<times> BufferPoolManagerInstance" where
  "NewPgImp s =
     (if free_list s = [] \<and> Size (replacer s) = 0 then (Inr None, s)
      else
        (case pick_frame s of
           (None, s1) \<Rightarrow> (Inl Uninitialised, s1)
         | (Some fid, s1) \<Rightarrow>
             (case AllocatePage s1 of
                (Inl e, s2) \<Rightarrow> (Inl e, s2)
              | (Inr pid, s2) \<Rightarrow>
                  let p1 = (pages s2 ! fid)\<lparr>page_id := pid\<rparr>;
                      p2 = ResetMemory p1;
                      p3 = p2\<lparr>pin_count := 1\<rparr>;
                      p4 = p3\<lparr>is_dirty := False\<rparr>;
                      s3 = s2\<lparr>pages := (pages s2)[fid := p4]\<rparr>;
                      s4 = s3\<lparr>page_table := pt_insert (page_id p4) fid (page_table s3)\<rparr>;
                      s5 = s4\<lparr>replacer := Pin fid (replacer s4)\<rparr>
                  in (Inr (Some (pid, fid)), s5))))"

text \<open>
  \<^verbatim>\<open>FetchPgImp\<close> returns the frame. The call of \<^verbatim>\<open>ReadPage\<close> is a statement without a
  handler around it, so a failing read leaves the function there, with the state as it
  is at that line. \<open>p1\<close> to \<open>p4\<close> are the object behind the pointer \<^verbatim>\<open>page\<close> after each
  assignment.
\<close>

definition FetchPgImp ::
  "page_id_t \<Rightarrow> BufferPoolManagerInstance \<Rightarrow>
     (fault + frame_id_t option) \<times> BufferPoolManagerInstance" where
  "FetchPgImp pid s =
     (case map_of (page_table s) pid of
        Some fid \<Rightarrow>
          let page = pages s ! fid;
              s1 = s\<lparr>pages := (pages s)[fid := page\<lparr>pin_count := pin_count page + 1\<rparr>]\<rparr>;
              s2 = s1\<lparr>replacer := Pin fid (replacer s1)\<rparr>
          in (Inr (Some fid), s2)
      | None \<Rightarrow>
          if free_list s = [] \<and> Size (replacer s) = 0 then (Inr None, s)
          else
            (case pick_frame s of
               (None, s1) \<Rightarrow> (Inl Uninitialised, s1)
             | (Some fid, s1) \<Rightarrow>
                 let p1 = (pages s1 ! fid)\<lparr>page_id := pid\<rparr>;
                     s2 = s1\<lparr>pages := (pages s1)[fid := p1]\<rparr>
                 in
                 (case ReadPage pid (disk_manager s2) of
                    (None, dm) \<Rightarrow> (Inl IOFailed, s2\<lparr>disk_manager := dm\<rparr>)
                  | (Some buf, dm) \<Rightarrow>
                      let p2 = p1\<lparr>data := buf\<rparr>;
                          p3 = p2\<lparr>pin_count := 1\<rparr>;
                          p4 = p3\<lparr>is_dirty := False\<rparr>;
                          s3 = s2\<lparr>disk_manager := dm, pages := (pages s2)[fid := p4]\<rparr>;
                          s4 = s3\<lparr>page_table := pt_insert (page_id p4) fid (page_table s3)\<rparr>;
                          s5 = s4\<lparr>replacer := Pin fid (replacer s4)\<rparr>
                      in (Inr (Some fid), s5))))"

text \<open>
  The same three pieces of code with the kind of \<^verbatim>\<open>latch_\<close> as a parameter (its
  declaration is in the missing header): a plain mutex, which its holder cannot lock
  again, or a recursive one. They differ from the definitions above in one place: with a
  plain mutex the nested call of \<^verbatim>\<open>FlushPgImp\<close> does not return, and the state is left as
  it is at that call.
\<close>

datatype latch_kind = Plain_mutex | Recursive_mutex

definition pick_frame_latched ::
  "latch_kind \<Rightarrow> BufferPoolManagerInstance \<Rightarrow>
     (fault + frame_id_t option) \<times> BufferPoolManagerInstance" where
  "pick_frame_latched k s =
     (if free_list s \<noteq> [] then
        (Inr (Some (hd (free_list s))), s\<lparr>free_list := tl (free_list s)\<rparr>)
      else
        (case Victim (replacer s) of
           (None, r) \<Rightarrow> (Inr None, s\<lparr>replacer := r\<rparr>)
         | (Some fid, r) \<Rightarrow>
             let s1 = s\<lparr>replacer := r\<rparr> in
             if is_dirty (pages s1 ! fid) \<and> k = Plain_mutex then (Inl Deadlock, s1)
             else
               let s2 = (if is_dirty (pages s1 ! fid)
                         then snd (FlushPgImp (page_id (pages s1 ! fid)) s1) else s1);
                   s3 = s2\<lparr>page_table := pt_erase (page_id (pages s2 ! fid)) (page_table s2)\<rparr>
               in (Inr (Some fid), s3)))"

definition NewPgImp_latched ::
  "latch_kind \<Rightarrow> BufferPoolManagerInstance \<Rightarrow>
     (fault + (page_id_t \<times> frame_id_t) option) \<times> BufferPoolManagerInstance" where
  "NewPgImp_latched k s =
     (if free_list s = [] \<and> Size (replacer s) = 0 then (Inr None, s)
      else
        (case pick_frame_latched k s of
           (Inl e, s1) \<Rightarrow> (Inl e, s1)
         | (Inr None, s1) \<Rightarrow> (Inl Uninitialised, s1)
         | (Inr (Some fid), s1) \<Rightarrow>
             (case AllocatePage s1 of
                (Inl e, s2) \<Rightarrow> (Inl e, s2)
              | (Inr pid, s2) \<Rightarrow>
                  let p1 = (pages s2 ! fid)\<lparr>page_id := pid\<rparr>;
                      p2 = ResetMemory p1;
                      p3 = p2\<lparr>pin_count := 1\<rparr>;
                      p4 = p3\<lparr>is_dirty := False\<rparr>;
                      s3 = s2\<lparr>pages := (pages s2)[fid := p4]\<rparr>;
                      s4 = s3\<lparr>page_table := pt_insert (page_id p4) fid (page_table s3)\<rparr>;
                      s5 = s4\<lparr>replacer := Pin fid (replacer s4)\<rparr>
                  in (Inr (Some (pid, fid)), s5))))"

definition FetchPgImp_latched ::
  "latch_kind \<Rightarrow> page_id_t \<Rightarrow> BufferPoolManagerInstance \<Rightarrow>
     (fault + frame_id_t option) \<times> BufferPoolManagerInstance" where
  "FetchPgImp_latched k pid s =
     (case map_of (page_table s) pid of
        Some fid \<Rightarrow>
          let page = pages s ! fid;
              s1 = s\<lparr>pages := (pages s)[fid := page\<lparr>pin_count := pin_count page + 1\<rparr>]\<rparr>;
              s2 = s1\<lparr>replacer := Pin fid (replacer s1)\<rparr>
          in (Inr (Some fid), s2)
      | None \<Rightarrow>
          if free_list s = [] \<and> Size (replacer s) = 0 then (Inr None, s)
          else
            (case pick_frame_latched k s of
               (Inl e, s1) \<Rightarrow> (Inl e, s1)
             | (Inr None, s1) \<Rightarrow> (Inl Uninitialised, s1)
             | (Inr (Some fid), s1) \<Rightarrow>
                 let p1 = (pages s1 ! fid)\<lparr>page_id := pid\<rparr>;
                     s2 = s1\<lparr>pages := (pages s1)[fid := p1]\<rparr>
                 in
                 (case ReadPage pid (disk_manager s2) of
                    (None, dm) \<Rightarrow> (Inl IOFailed, s2\<lparr>disk_manager := dm\<rparr>)
                  | (Some buf, dm) \<Rightarrow>
                      let p2 = p1\<lparr>data := buf\<rparr>;
                          p3 = p2\<lparr>pin_count := 1\<rparr>;
                          p4 = p3\<lparr>is_dirty := False\<rparr>;
                          s3 = s2\<lparr>disk_manager := dm, pages := (pages s2)[fid := p4]\<rparr>;
                          s4 = s3\<lparr>page_table := pt_insert (page_id p4) fid (page_table s3)\<rparr>;
                          s5 = s4\<lparr>replacer := Pin fid (replacer s4)\<rparr>
                      in (Inr (Some fid), s5))))"

text \<open>
  \<^verbatim>\<open>DeletePgImp\<close>. \<^verbatim>\<open>DeallocatePage\<close> does nothing (Modelled from the spec: it is defined in
  the missing header, "a no-op in the basic design"). The argument of
  \<^verbatim>\<open>page_table_.erase\<close> is \<^verbatim>\<open>page->page_id_\<close>, read through the pointer after the
  assignments above it.
\<close>

definition DeletePgImp ::
  "page_id_t \<Rightarrow> BufferPoolManagerInstance \<Rightarrow> bool \<times> BufferPoolManagerInstance" where
  "DeletePgImp pid s =
     (case map_of (page_table s) pid of
        None \<Rightarrow> (True, s)
      | Some fid \<Rightarrow>
          let page = pages s ! fid in
          if pin_count page \<noteq> 0 then (False, s)
          else
            let p1 = page\<lparr>page_id := INVALID_PAGE_ID\<rparr>;
                p2 = ResetMemory p1;
                p3 = p2\<lparr>is_dirty := False\<rparr>;
                p4 = p3\<lparr>pin_count := 0\<rparr>;
                s1 = s\<lparr>pages := (pages s)[fid := p4]\<rparr>;
                s2 = s1\<lparr>page_table := pt_erase (page_id p4) (page_table s1)\<rparr>;
                s3 = s2\<lparr>free_list := free_list s2 @ [fid]\<rparr>;
                s4 = s3\<lparr>replacer := Pin fid (replacer s3)\<rparr>
            in (True, s4))"

definition UnpinPgImp ::
  "page_id_t \<Rightarrow> bool \<Rightarrow> BufferPoolManagerInstance \<Rightarrow> bool \<times> BufferPoolManagerInstance" where
  "UnpinPgImp pid dirty s =
     (case map_of (page_table s) pid of
        None \<Rightarrow> (False, s)
      | Some fid \<Rightarrow>
          let page = pages s ! fid in
          if pin_count page = 0 then (True, s)
          else
            let p1 = (if dirty then page\<lparr>is_dirty := dirty\<rparr> else page);
                p2 = p1\<lparr>pin_count := pin_count p1 - 1\<rparr>;
                s1 = s\<lparr>pages := (pages s)[fid := p2]\<rparr>;
                s2 = (if pin_count p2 = 0
                      then s1\<lparr>replacer := Unpin fid (replacer s1)\<rparr> else s1)
            in (True, s2))"

section \<open>Sequences of calls\<close>

text \<open>
  The public calls of an instance, and the state an instance is in after a sequence of
  them (results dropped).
\<close>

datatype bpm_call =
    NewPage
  | FetchPage page_id_t
  | UnpinPage page_id_t bool
  | FlushPage page_id_t
  | FlushAllPages
  | DeletePage page_id_t

fun bpm_apply :: "BufferPoolManagerInstance \<Rightarrow> bpm_call \<Rightarrow> BufferPoolManagerInstance" where
  "bpm_apply s NewPage = snd (NewPgImp s)"
| "bpm_apply s (FetchPage p) = snd (FetchPgImp p s)"
| "bpm_apply s (UnpinPage p d) = snd (UnpinPgImp p d s)"
| "bpm_apply s (FlushPage p) = snd (FlushPgImp p s)"
| "bpm_apply s FlushAllPages = FlushAllPgsImp s"
| "bpm_apply s (DeletePage p) = snd (DeletePgImp p s)"

definition bpm_run :: "BufferPoolManagerInstance \<Rightarrow> bpm_call list \<Rightarrow> BufferPoolManagerInstance" where
  "bpm_run s cs = foldl bpm_apply s cs"

section \<open>Invariants of the frame bookkeeping\<close>

text \<open>
  Every frame id below \<open>pool_size\<close> is in exactly one of the free list and the range of
  the page table.
\<close>

definition frames_partitioned :: "BufferPoolManagerInstance \<Rightarrow> bool" where
  "frames_partitioned s =
     list_all (\<lambda>f. (f \<in> set (free_list s)) \<noteq> (f \<in> snd ` set (page_table s)))
       [0..<pool_size s]"

text \<open>Every entry of the page table points to a frame that holds the entry's page id.\<close>

definition table_agrees :: "BufferPoolManagerInstance \<Rightarrow> bool" where
  "table_agrees s = list_all (\<lambda>e. page_id (pages s ! snd e) = fst e) (page_table s)"

definition frame_invariant :: "BufferPoolManagerInstance \<Rightarrow> bool" where
  "frame_invariant s = (frames_partitioned s \<and> table_agrees s)"

section \<open>Repeated allocation\<close>

text \<open>
  \<open>n\<close> calls of \<^verbatim>\<open>AllocatePage\<close> one after the other; the ids in the order in which they
  were returned. A failed assertion ends the run.
\<close>

fun allocate_n ::
  "nat \<Rightarrow> BufferPoolManagerInstance \<Rightarrow> (fault + page_id_t list) \<times> BufferPoolManagerInstance" where
  "allocate_n 0 s = (Inr [], s)"
| "allocate_n (Suc n) s =
     (case AllocatePage s of
        (Inl e, s1) \<Rightarrow> (Inl e, s1)
      | (Inr pid, s1) \<Rightarrow>
          (case allocate_n n s1 of
             (Inl e, s2) \<Rightarrow> (Inl e, s2)
           | (Inr pids, s2) \<Rightarrow> (Inr (pid # pids), s2)))"

text \<open>The allocator's part of the state: the cursor and the two numbers it is checked against.\<close>

definition allocator_of :: "BufferPoolManagerInstance \<Rightarrow> page_id_t \<times> nat \<times> nat" where
  "allocator_of s = (next_page_id s, num_instances s, instance_index s)"

section \<open>Concrete instances\<close>

text \<open>
  A disk whose pages hold two zero bytes each and on which page 7 cannot be read, and a
  pool of one frame (page size 2, one instance) on it: as constructed, after
  \<^verbatim>\<open>NewPage\<close> (page 0, pinned), after \<^verbatim>\<open>UnpinPage(0, false)\<close> and after
  \<^verbatim>\<open>UnpinPage(0, true)\<close>.
\<close>

definition ex_disk :: DiskManager where
  "ex_disk = \<lparr>persisted = (\<lambda>pid. [0, 0]), read_fails = (\<lambda>pid. pid = 7), calls = []\<rparr>"

definition ex_fresh :: BufferPoolManagerInstance where
  "ex_fresh =
     \<lparr>pool_size = 1, num_instances = 1, instance_index = 0, next_page_id = 0,
      pages = [new_Page 2], replacer = LRUReplacer_new 1, free_list = [0],
      page_table = [], disk_manager = ex_disk\<rparr>"

definition ex_pinned :: BufferPoolManagerInstance where
  "ex_pinned = snd (NewPgImp ex_fresh)"

definition ex_clean :: BufferPoolManagerInstance where
  "ex_clean = snd (UnpinPgImp 0 False ex_pinned)"

definition ex_dirty :: BufferPoolManagerInstance where
  "ex_dirty = snd (UnpinPgImp 0 True ex_pinned)"

text \<open>
  A pool of two frames on the same disk, as constructed, and after \<^verbatim>\<open>NewPage\<close> (page 0
  in frame 0) and \<^verbatim>\<open>UnpinPage(0, true)\<close>: frame 0 is dirty and in the replacer, frame 1 is
  in the free list.
\<close>

definition ex_fresh2 :: BufferPoolManagerInstance where
  "ex_fresh2 =
     \<lparr>pool_size = 2, num_instances = 1, instance_index = 0, next_page_id = 0,
      pages = [new_Page 2, new_Page 2], replacer = LRUReplacer_new 2, free_list = [0, 1],
      page_table = [], disk_manager = ex_disk\<rparr>"

definition ex_dirty2 :: BufferPoolManagerInstance where
  "ex_dirty2 = snd (UnpinPgImp 0 True (snd (NewPgImp ex_fresh2)))"

text \<open>
  Three states that runs from the constructor reach through the entry that
  \<^verbatim>\<open>DeletePage\<close> leaves in the page table.

  On the pool of two frames: page 1 is fetched into frame 0 and stays pinned; page 0 is
  created in frame 1, unpinned and deleted; through the entry \<open>0 \<mapsto> 1\<close> that is left,
  \<^verbatim>\<open>FetchPage(0)\<close> pins frame 1; \<^verbatim>\<open>NewPage\<close> takes frame 1 from the free list for the new
  page 1, whose entry cannot be inserted because page 1 already has one; and
  \<^verbatim>\<open>UnpinPage(0, true)\<close> unpins frame 1 as dirty.
\<close>

definition ex_stale_victim :: BufferPoolManagerInstance where
  "ex_stale_victim =
     bpm_run ex_fresh2
       [FetchPage 1, NewPage, UnpinPage 0 False, DeletePage 0, FetchPage 0, NewPage,
        UnpinPage 0 True]"

text \<open>
  On the pool of one frame: page 0 is created, unpinned and deleted twice, which puts
  frame 0 on the free list twice; \<^verbatim>\<open>NewPage\<close> takes it once for page 1, and
  \<^verbatim>\<open>UnpinPage(1, true)\<close> puts it into the replacer.
\<close>

definition ex_free_and_unpinned :: BufferPoolManagerInstance where
  "ex_free_and_unpinned =
     bpm_run ex_fresh
       [NewPage, UnpinPage 0 False, DeletePage 0, DeletePage 0, NewPage, UnpinPage 1 True]"

text \<open>
  On the pool of one frame: page 0 is created, unpinned and deleted; \<^verbatim>\<open>NewPage\<close> reuses
  frame 0 for page 1, and \<^verbatim>\<open>UnpinPage(1, true)\<close> marks it dirty.
\<close>

definition ex_two_entries :: BufferPoolManagerInstance where
  "ex_two_entries =
     bpm_run ex_fresh [NewPage, UnpinPage 0 False, DeletePage 0, NewPage, UnpinPage 1 True]"

section \<open>The replacer is a strict LRU queue\<close>

lemma std_find_le: "std_find xs x \<le> length xs"
  by (induction xs) auto

lemma std_find_end: "(std_find xs x = length xs) = (x \<notin> set xs)"
proof (induction xs)
  case Nil
  show ?case by simp
next
  case (Cons y ys)
  have "std_find ys x \<le> length ys" by (rule std_find_le)
  with Cons show ?case by auto
qed

lemma erase_at_std_find: "erase_at (std_find xs x) xs = remove1 x xs"
  by (induction xs) (auto simp: erase_at_def)

lemma list_t_Pin: "list_t (Pin f r) = remove1 f (list_t r)"
  by (simp add: Pin_def Let_def std_find_end erase_at_std_find remove1_idem)

lemma size_lru_Pin: "size_lru (Pin f r) = size_lru r"
  by (simp add: Pin_def Let_def)

lemma Pin_absent: "f \<notin> set (list_t r) \<Longrightarrow> Pin f r = r"
  by (simp add: Pin_def Let_def std_find_end)

lemma count_list_zero: "(count_list xs x = 0) = (x \<notin> set xs)"
  by (induction xs) auto

lemma Victim_nonempty:
  "Size r \<noteq> 0 \<Longrightarrow> Victim r = (Some (hd (list_t r)), r\<lparr>list_t := tl (list_t r)\<rparr>)"
  by (simp add: Victim_def)

lemma Unpin_append:
  "f \<notin> set (list_t r) \<Longrightarrow> length (list_t r) < size_lru r \<Longrightarrow>
   Unpin f r = r\<lparr>list_t := list_t r @ [f]\<rparr>"
  by (simp add: Unpin_def count_list_zero)

lemma Unpin_noop:
  "f \<in> set (list_t r) \<or> size_lru r \<le> length (list_t r) \<Longrightarrow> Unpin f r = r"
  by (auto simp: Unpin_def count_list_zero)

lemma Pin_remove1: "Pin f r = r\<lparr>list_t := remove1 f (list_t r)\<rparr>"
  by (simp add: Pin_def Let_def std_find_end erase_at_std_find remove1_idem)

lemma remove1_filter: "distinct xs \<Longrightarrow> remove1 x xs = filter (\<lambda>y. y \<noteq> x) xs"
  by (induction xs) (auto intro!: filter_True [symmetric])

text \<open>
  The three operations on any replacer whose list has no duplicates, with the capacity
  the record holds.
\<close>

lemma LRUReplacer_calls:
  assumes "distinct (list_t r)"
  shows "list_t (LRUReplacer_new n) = []
       \<and> (list_t r = [] \<longrightarrow> Victim r = (None, r))
       \<and> (list_t r \<noteq> [] \<longrightarrow>
            Victim r = (Some (hd (list_t r)), r\<lparr>list_t := tl (list_t r)\<rparr>))
       \<and> (fst (Victim r) = None) = (set (list_t r) = {})
       \<and> (f \<notin> set (list_t r) \<and> length (list_t r) < size_lru r \<longrightarrow>
            Unpin f r = r\<lparr>list_t := list_t r @ [f]\<rparr>)
       \<and> (f \<in> set (list_t r) \<or> size_lru r \<le> length (list_t r) \<longrightarrow> Unpin f r = r)
       \<and> (f \<in> set (list_t r) \<longrightarrow>
            Pin f r = r\<lparr>list_t := filter (\<lambda>x. x \<noteq> f) (list_t r)\<rparr>
            \<and> f \<notin> set (list_t (Pin f r)))
       \<and> (f \<notin> set (list_t r) \<longrightarrow> Pin f r = r)
       \<and> distinct (list_t (snd (Victim r)))
       \<and> distinct (list_t (Unpin f r))
       \<and> distinct (list_t (Pin f r))"
proof -
  have n: "list_t (LRUReplacer_new n) = []"
    by (simp add: LRUReplacer_new_def)
  have v1: "list_t r = [] \<longrightarrow> Victim r = (None, r)"
    by (simp add: Victim_def Size_def)
  have v2: "list_t r \<noteq> [] \<longrightarrow>
            Victim r = (Some (hd (list_t r)), r\<lparr>list_t := tl (list_t r)\<rparr>)"
    by (simp add: Victim_def Size_def)
  have v3: "(fst (Victim r) = None) = (set (list_t r) = {})"
    by (simp add: Victim_def Size_def)
  have u1: "f \<notin> set (list_t r) \<and> length (list_t r) < size_lru r \<longrightarrow>
            Unpin f r = r\<lparr>list_t := list_t r @ [f]\<rparr>"
    by (simp add: Unpin_append)
  have u2: "f \<in> set (list_t r) \<or> size_lru r \<le> length (list_t r) \<longrightarrow> Unpin f r = r"
    using Unpin_noop by blast
  have p0: "Pin f r = r\<lparr>list_t := filter (\<lambda>x. x \<noteq> f) (list_t r)\<rparr>"
    using assms by (simp add: Pin_remove1 remove1_filter)
  have p1: "f \<in> set (list_t r) \<longrightarrow>
            Pin f r = r\<lparr>list_t := filter (\<lambda>x. x \<noteq> f) (list_t r)\<rparr>
            \<and> f \<notin> set (list_t (Pin f r))"
    using p0 by simp
  have p2: "f \<notin> set (list_t r) \<longrightarrow> Pin f r = r"
    by (simp add: Pin_absent)
  have d1: "distinct (list_t (snd (Victim r)))"
    using assms by (simp add: Victim_def distinct_tl)
  have d2: "distinct (list_t (Unpin f r))"
    using assms by (simp add: Unpin_def count_list_zero)
  have d3: "distinct (list_t (Pin f r))"
    using assms by (simp add: list_t_Pin)
  from n v1 v2 v3 u1 u2 p1 p2 d1 d2 d3 show ?thesis by blast
qed

text \<open>
  Every replacer that the constructor and the three operations produce holds the
  constructor's \<open>num_pages\<close> as its capacity, has no duplicates in its list and holds at
  most \<open>num_pages\<close> frames.
\<close>

lemma lru_run_snoc: "lru_run n (cs @ [c]) = lru_apply (lru_run n cs) c"
  by (simp add: lru_run_def)

lemma lru_apply_inv:
  assumes "size_lru r = n" and "distinct (list_t r)" and "length (list_t r) \<le> n"
  shows "size_lru (lru_apply r c) = n \<and> distinct (list_t (lru_apply r c))
       \<and> length (list_t (lru_apply r c)) \<le> n"
proof (cases c)
  case CallVictim
  with assms show ?thesis by (auto simp: Victim_def Size_def distinct_tl)
next
  case (CallPin f)
  have "length (remove1 f (list_t r)) \<le> length (list_t r)"
    by (simp add: length_remove1)
  with CallPin assms show ?thesis by (simp add: list_t_Pin size_lru_Pin)
next
  case (CallUnpin f)
  with assms show ?thesis by (auto simp: Unpin_def count_list_zero)
qed

lemma lru_run_inv:
  "size_lru (lru_run n cs) = n \<and> distinct (list_t (lru_run n cs))
   \<and> length (list_t (lru_run n cs)) \<le> n"
proof (induction cs rule: rev_induct)
  case Nil
  show ?case by (simp add: lru_run_def LRUReplacer_new_def)
next
  case (snoc c cs)
  then show ?case using lru_apply_inv [of "lru_run n cs" n c] by (simp add: lru_run_snoc)
qed

text \<open>
  Claim C6. The replacer is a strict LRU queue. The constructor stores \<open>num_pages\<close> and
  starts with no member. For every replacer \<open>r\<close> obtained from the constructor with
  \<open>num_pages\<close> by any sequence of calls: \<^verbatim>\<open>Victim\<close> fails exactly when \<open>r\<close> is empty and
  otherwise removes and returns the front, the least recently unpinned frame; \<^verbatim>\<open>Unpin\<close>
  appends the frame at the back when it is absent and fewer than \<open>num_pages\<close> frames are
  held, and does nothing otherwise; \<^verbatim>\<open>Pin\<close> of a member removes it and keeps the others
  in their order, and \<^verbatim>\<open>Pin\<close> of a frame that is not a member does nothing.
\<close>

theorem LRUReplacer_strict_LRU:
  assumes "r = lru_run num_pages cs"
  shows "LRUReplacer_new num_pages = \<lparr>size_lru = num_pages, list_t = []\<rparr>
       \<and> size_lru r = num_pages \<and> distinct (list_t r) \<and> length (list_t r) \<le> num_pages
       \<and> (list_t r = [] \<longrightarrow> Victim r = (None, r))
       \<and> (list_t r \<noteq> [] \<longrightarrow>
            Victim r = (Some (hd (list_t r)), r\<lparr>list_t := tl (list_t r)\<rparr>))
       \<and> (fst (Victim r) = None) = (set (list_t r) = {})
       \<and> (f \<notin> set (list_t r) \<and> length (list_t r) < num_pages \<longrightarrow>
            Unpin f r = r\<lparr>list_t := list_t r @ [f]\<rparr>)
       \<and> (f \<in> set (list_t r) \<or> num_pages \<le> length (list_t r) \<longrightarrow> Unpin f r = r)
       \<and> (f \<in> set (list_t r) \<longrightarrow>
            Pin f r = r\<lparr>list_t := filter (\<lambda>x. x \<noteq> f) (list_t r)\<rparr>
            \<and> f \<notin> set (list_t (Pin f r)))
       \<and> (f \<notin> set (list_t r) \<longrightarrow> Pin f r = r)"
proof -
  have c: "LRUReplacer_new num_pages = \<lparr>size_lru = num_pages, list_t = []\<rparr>"
    by (simp add: LRUReplacer_new_def)
  have i: "size_lru r = num_pages \<and> distinct (list_t r) \<and> length (list_t r) \<le> num_pages"
    unfolding assms by (rule lru_run_inv)
  then have sz: "size_lru r = num_pages" and d: "distinct (list_t r)" by simp_all
  from LRUReplacer_calls [OF d, of 0 f] c i show ?thesis
    unfolding sz by blast
qed

theorem LRUReplacer_strict_LRU_witness:
  "lru_run 3 [CallUnpin 2, CallUnpin 0] = \<lparr>size_lru = 3, list_t = [2, 0]\<rparr>
   \<and> Victim (lru_run 3 [CallUnpin 2, CallUnpin 0]) = (Some 2, \<lparr>size_lru = 3, list_t = [0]\<rparr>)
   \<and> Unpin 1 (lru_run 3 [CallUnpin 2, CallUnpin 0]) = \<lparr>size_lru = 3, list_t = [2, 0, 1]\<rparr>
   \<and> Unpin 0 (lru_run 3 [CallUnpin 2, CallUnpin 0]) = \<lparr>size_lru = 3, list_t = [2, 0]\<rparr>
   \<and> Pin 2 (lru_run 3 [CallUnpin 2, CallUnpin 0]) = \<lparr>size_lru = 3, list_t = [0]\<rparr>
   \<and> Pin 1 (lru_run 3 [CallUnpin 2, CallUnpin 0]) = \<lparr>size_lru = 3, list_t = [2, 0]\<rparr>
   \<and> Victim (lru_run 3 []) = (None, \<lparr>size_lru = 3, list_t = []\<rparr>)
   \<and> Unpin 5 (lru_run 3 []) = \<lparr>size_lru = 3, list_t = [5]\<rparr>
   \<and> lru_run 2 [CallUnpin 2, CallUnpin 0] = \<lparr>size_lru = 2, list_t = [2, 0]\<rparr>
   \<and> Unpin 1 (lru_run 2 [CallUnpin 2, CallUnpin 0]) = \<lparr>size_lru = 2, list_t = [2, 0]\<rparr>"
proof -
  have a: "lru_run 3 [CallUnpin 2, CallUnpin 0] = \<lparr>size_lru = 3, list_t = [2, 0]\<rparr>"
    by (simp add: lru_run_def LRUReplacer_new_def Unpin_def)
  have b: "lru_run 3 [] = \<lparr>size_lru = 3, list_t = []\<rparr>"
    by (simp add: lru_run_def LRUReplacer_new_def)
  have c: "lru_run 2 [CallUnpin 2, CallUnpin 0] = \<lparr>size_lru = 2, list_t = [2, 0]\<rparr>"
    by (simp add: lru_run_def LRUReplacer_new_def Unpin_def)
  from LRUReplacer_strict_LRU [OF refl, of 3 "[CallUnpin 2, CallUnpin 0]" 1]
       LRUReplacer_strict_LRU [OF refl, of 3 "[CallUnpin 2, CallUnpin 0]" 0]
       LRUReplacer_strict_LRU [OF refl, of 3 "[CallUnpin 2, CallUnpin 0]" 2]
       LRUReplacer_strict_LRU [OF refl, of 3 "[]" 5]
       LRUReplacer_strict_LRU [OF refl, of 2 "[CallUnpin 2, CallUnpin 0]" 1]
  show ?thesis by (simp add: a b c)
qed

section \<open>The concrete instances, evaluated\<close>

lemmas bpm_defs = NewPgImp_def FetchPgImp_def DeletePgImp_def UnpinPgImp_def FlushPgImp_def
  FlushAllPgsImp_def pick_frame_def AllocatePage_def ValidatePageId_def ResetMemory_def
  pt_insert_def pt_erase_def Pin_def Unpin_def Victim_def Size_def erase_at_def
  WritePage_def ReadPage_def new_Page_def LRUReplacer_new_def INVALID_PAGE_ID_def Let_def

lemma ex_fresh_constructed: "BufferPoolManagerInstance_new 2 1 1 0 ex_disk = Inr ex_fresh"
  by (simp add: BufferPoolManagerInstance_new_def ex_fresh_def LRUReplacer_new_def)

lemma ex_pinned_eq:
  "NewPgImp ex_fresh = (Inr (Some (0, 0)),
     \<lparr>pool_size = 1, num_instances = 1, instance_index = 0, next_page_id = 1,
      pages = [\<lparr>data = [0, 0], page_id = 0, pin_count = 1, is_dirty = False\<rparr>],
      replacer = \<lparr>size_lru = 1, list_t = []\<rparr>, free_list = [],
      page_table = [(0, 0)], disk_manager = ex_disk\<rparr>)"
  by (simp add: ex_fresh_def bpm_defs numeral_2_eq_2)

lemma ex_pinned_val:
  "ex_pinned = \<lparr>pool_size = 1, num_instances = 1, instance_index = 0, next_page_id = 1,
      pages = [\<lparr>data = [0, 0], page_id = 0, pin_count = 1, is_dirty = False\<rparr>],
      replacer = \<lparr>size_lru = 1, list_t = []\<rparr>, free_list = [],
      page_table = [(0, 0)], disk_manager = ex_disk\<rparr>"
  by (simp add: ex_pinned_def ex_pinned_eq)

lemma ex_clean_val:
  "ex_clean = \<lparr>pool_size = 1, num_instances = 1, instance_index = 0, next_page_id = 1,
      pages = [\<lparr>data = [0, 0], page_id = 0, pin_count = 0, is_dirty = False\<rparr>],
      replacer = \<lparr>size_lru = 1, list_t = [0]\<rparr>, free_list = [],
      page_table = [(0, 0)], disk_manager = ex_disk\<rparr>"
  by (simp add: ex_clean_def ex_pinned_val bpm_defs)

lemma ex_dirty_val:
  "ex_dirty = \<lparr>pool_size = 1, num_instances = 1, instance_index = 0, next_page_id = 1,
      pages = [\<lparr>data = [0, 0], page_id = 0, pin_count = 0, is_dirty = True\<rparr>],
      replacer = \<lparr>size_lru = 1, list_t = [0]\<rparr>, free_list = [],
      page_table = [(0, 0)], disk_manager = ex_disk\<rparr>"
  by (simp add: ex_dirty_def ex_pinned_val bpm_defs)

text \<open>
  The instances are states of a run: the constructor yields \<open>ex_fresh\<close>, \<^verbatim>\<open>NewPage\<close>
  there yields page 0 in frame 0, and unpinning page 0 yields \<open>ex_clean\<close> or \<open>ex_dirty\<close>.
\<close>

lemma ex_reachable:
  "BufferPoolManagerInstance_new 2 1 1 0 ex_disk = Inr ex_fresh
   \<and> NewPgImp ex_fresh = (Inr (Some (0, 0)), ex_pinned)
   \<and> UnpinPgImp 0 False ex_pinned = (True, ex_clean)
   \<and> UnpinPgImp 0 True ex_pinned = (True, ex_dirty)"
proof -
  have a: "NewPgImp ex_fresh = (Inr (Some (0, 0)), ex_pinned)"
    by (simp add: ex_pinned_eq ex_pinned_val)
  have b: "UnpinPgImp 0 False ex_pinned = (True, ex_clean)"
    unfolding ex_clean_val by (simp add: ex_pinned_val bpm_defs)
  have c: "UnpinPgImp 0 True ex_pinned = (True, ex_dirty)"
    unfolding ex_dirty_val by (simp add: ex_pinned_val bpm_defs)
  from ex_fresh_constructed a b c show ?thesis by blast
qed

section \<open>The page table\<close>

lemma map_of_pt_erase:
  "map_of (pt_erase k pt) k' = (if k' = k then None else map_of pt k')"
  by (induction pt) (auto simp: pt_erase_def)

lemma map_of_pt_insert:
  "map_of (pt_insert k v pt) k' =
     (if k' = k \<and> map_of pt k = None then Some v else map_of pt k')"
  by (auto simp: pt_insert_def map_of_append map_add_def split: option.splits)

section \<open>DeletePage\<close>

text \<open>
  What \<^verbatim>\<open>DeletePgImp\<close> does to a resident, unpinned page: the frame is reset, appended
  to the free list and taken out of the replacer, and the key erased from the page table
  is \<open>INVALID_PAGE_ID\<close>, so the entry of any other page id stays.
\<close>

lemma DeletePgImp_unpinned:
  assumes "map_of (page_table s) p = Some f" and "pin_count (pages s ! f) = 0"
  shows "DeletePgImp p s =
     (True, s\<lparr>pages := (pages s)[f := \<lparr>data = replicate (length (data (pages s ! f))) 0,
                                       page_id = INVALID_PAGE_ID, pin_count = 0,
                                       is_dirty = False\<rparr>],
              page_table := pt_erase INVALID_PAGE_ID (page_table s),
              free_list := free_list s @ [f],
              replacer := Pin f (replacer s)\<rparr>)"
  using assms by (cases "pages s ! f") (simp add: DeletePgImp_def ResetMemory_def Let_def)

lemma DeletePgImp_stale_mapping:
  assumes "map_of (page_table s) p = Some f" and "pin_count (pages s ! f) = 0"
    and "p \<noteq> INVALID_PAGE_ID"
  shows "map_of (page_table (snd (DeletePgImp p s))) p = Some f"
  using assms by (simp add: DeletePgImp_unpinned map_of_pt_erase)

text \<open>
  Claim C1, at the pool of one frame whose page 0 is resident and unpinned:
  \<^verbatim>\<open>DeletePage(0)\<close> returns true, resets frame 0, appends it to the free list and takes
  it out of the replacer, but page 0 is still mapped to frame 0 in the page table
  afterwards.
\<close>

theorem DeletePgImp_keeps_page_table_entry:
  "fst (DeletePgImp 0 ex_clean) = True
   \<and> pages (snd (DeletePgImp 0 ex_clean)) ! 0 =
       \<lparr>data = [0, 0], page_id = INVALID_PAGE_ID, pin_count = 0, is_dirty = False\<rparr>
   \<and> free_list (snd (DeletePgImp 0 ex_clean)) = [0]
   \<and> list_t (replacer (snd (DeletePgImp 0 ex_clean))) = []
   \<and> map_of (page_table ex_clean) 0 = Some 0
   \<and> map_of (page_table (snd (DeletePgImp 0 ex_clean))) 0 = Some 0"
  by (simp add: ex_clean_val bpm_defs)

text \<open>
  Claim C2, at the same state: the invariant (every frame in exactly one of the free
  list and the range of the page table; every entry of the page table agreeing with its
  frame's page id) holds before \<^verbatim>\<open>DeletePage(0)\<close> and both of its parts fail afterwards.
\<close>

theorem DeletePgImp_breaks_frame_invariant:
  "frame_invariant ex_clean
   \<and> fst (DeletePgImp 0 ex_clean) = True
   \<and> \<not> frames_partitioned (snd (DeletePgImp 0 ex_clean))
   \<and> \<not> table_agrees (snd (DeletePgImp 0 ex_clean))
   \<and> \<not> frame_invariant (snd (DeletePgImp 0 ex_clean))"
  by (simp add: ex_clean_val bpm_defs frame_invariant_def frames_partitioned_def table_agrees_def)

text \<open>
  \<^verbatim>\<open>NewPgImp\<close> can leave the invariant as well: \<^verbatim>\<open>insert\<close> does not overwrite, so when the
  id it allocates is already in the page table (page 0 was fetched before it was ever
  allocated), the frame it took from the free list ends up in neither the free list nor
  the page table's range.
\<close>

lemma NewPgImp_after_early_fetch:
  "frame_invariant (snd (FetchPgImp 0 ex_fresh2))
   \<and> fst (NewPgImp (snd (FetchPgImp 0 ex_fresh2))) = Inr (Some (0, 1))
   \<and> \<not> frames_partitioned (snd (NewPgImp (snd (FetchPgImp 0 ex_fresh2))))"
  by (simp add: ex_fresh2_def ex_disk_def bpm_defs frame_invariant_def frames_partitioned_def
      table_agrees_def numeral_2_eq_2 upt_rec)

section \<open>Exhaustion and the victim call\<close>

text \<open>
  Claim C9. When the free list and the replacer are both empty, \<^verbatim>\<open>NewPgImp\<close> returns
  the empty result and the whole state, the allocator cursor included, is unchanged.
\<close>

theorem NewPgImp_full_pool_unchanged:
  "free_list s = [] \<Longrightarrow> Size (replacer s) = 0 \<Longrightarrow> NewPgImp s = (Inr None, s)"
  by (simp add: NewPgImp_def)

theorem NewPgImp_full_pool_unchanged_witness:
  "free_list ex_pinned = [] \<and> Size (replacer ex_pinned) = 0
   \<and> NewPgImp ex_pinned = (Inr None, ex_pinned)
   \<and> next_page_id (snd (NewPgImp ex_pinned)) = 1"
proof -
  have a: "free_list ex_pinned = []" by (simp add: ex_pinned_val)
  have b: "Size (replacer ex_pinned) = 0" by (simp add: ex_pinned_val Size_def)
  have c: "next_page_id ex_pinned = 1" by (simp add: ex_pinned_val)
  from NewPgImp_full_pool_unchanged [OF a b] a b c show ?thesis by simp
qed

lemma pick_frame_some:
  "free_list s \<noteq> [] \<or> Size (replacer s) \<noteq> 0 \<Longrightarrow> fst (pick_frame s) \<noteq> None"
  by (auto simp: pick_frame_def Victim_def Let_def)

lemma NewPgImp_initialised: "fst (NewPgImp s) \<noteq> Inl Uninitialised"
proof (cases "free_list s = [] \<and> Size (replacer s) = 0")
  case True
  then show ?thesis by (simp add: NewPgImp_def)
next
  case False
  then have "fst (pick_frame s) \<noteq> None" using pick_frame_some by blast
  then obtain f s1 where pf: "pick_frame s = (Some f, s1)" by (cases "pick_frame s") auto
  with False show ?thesis
    by (auto simp: NewPgImp_def AllocatePage_def Let_def)
qed

lemma FetchPgImp_initialised: "fst (FetchPgImp p s) \<noteq> Inl Uninitialised"
proof (cases "map_of (page_table s) p")
  case (Some f)
  then show ?thesis by (simp add: FetchPgImp_def Let_def)
next
  case None
  show ?thesis
  proof (cases "free_list s = [] \<and> Size (replacer s) = 0")
    case True
    with None show ?thesis by (simp add: FetchPgImp_def)
  next
    case False
    then have "fst (pick_frame s) \<noteq> None" using pick_frame_some by blast
    then obtain f s1 where pf: "pick_frame s = (Some f, s1)" by (cases "pick_frame s") auto
    with False None show ?thesis
      by (auto simp: FetchPgImp_def ReadPage_def Let_def)
  qed
qed

text \<open>
  Claim C10. Where \<^verbatim>\<open>NewPgImp\<close> and \<^verbatim>\<open>FetchPgImp\<close> call \<^verbatim>\<open>Victim\<close> (the free list is
  empty and the replacer's size is not zero), the call succeeds and yields the front of
  the replacer, a member of it; and neither function, in any state, reads a frame id
  that \<^verbatim>\<open>Victim\<close> left unwritten.
\<close>

theorem Victim_succeeds_under_guard:
  assumes "free_list s = []" and "Size (replacer s) \<noteq> 0"
  shows "Victim (replacer s) =
           (Some (hd (list_t (replacer s))), (replacer s)\<lparr>list_t := tl (list_t (replacer s))\<rparr>)
       \<and> hd (list_t (replacer s)) \<in> set (list_t (replacer s))
       \<and> fst (pick_frame s) = Some (hd (list_t (replacer s)))
       \<and> fst (NewPgImp s) \<noteq> Inl Uninitialised
       \<and> fst (FetchPgImp p s) \<noteq> Inl Uninitialised"
proof -
  have v: "Victim (replacer s) =
           (Some (hd (list_t (replacer s))), (replacer s)\<lparr>list_t := tl (list_t (replacer s))\<rparr>)"
    using assms(2) by (rule Victim_nonempty)
  have m: "hd (list_t (replacer s)) \<in> set (list_t (replacer s))"
    using assms(2) by (simp add: Size_def)
  have p: "fst (pick_frame s) = Some (hd (list_t (replacer s)))"
    using assms(1) v by (simp add: pick_frame_def Let_def)
  from v m p NewPgImp_initialised FetchPgImp_initialised show ?thesis by blast
qed

theorem Victim_succeeds_under_guard_witness:
  "free_list ex_clean = [] \<and> Size (replacer ex_clean) \<noteq> 0
   \<and> Victim (replacer ex_clean) = (Some 0, \<lparr>size_lru = 1, list_t = []\<rparr>)
   \<and> fst (pick_frame ex_clean) = Some 0
   \<and> fst (NewPgImp ex_clean) \<noteq> Inl Uninitialised
   \<and> fst (FetchPgImp 3 ex_clean) \<noteq> Inl Uninitialised"
proof -
  have a: "free_list ex_clean = []" by (simp add: ex_clean_val)
  have b: "Size (replacer ex_clean) \<noteq> 0" by (simp add: ex_clean_val Size_def)
  have c: "replacer ex_clean = \<lparr>size_lru = 1, list_t = [0]\<rparr>" by (simp add: ex_clean_val)
  from Victim_succeeds_under_guard [OF a b, of 3] a b show ?thesis by (simp add: c)
qed

lemma ex_fresh2_constructed: "BufferPoolManagerInstance_new 2 2 1 0 ex_disk = Inr ex_fresh2"
  by (simp add: BufferPoolManagerInstance_new_def ex_fresh2_def LRUReplacer_new_def
      numeral_2_eq_2)

lemma ex_dirty2_val:
  "ex_dirty2 = \<lparr>pool_size = 2, num_instances = 1, instance_index = 0, next_page_id = 1,
      pages = [\<lparr>data = [0, 0], page_id = 0, pin_count = 0, is_dirty = True\<rparr>,
               \<lparr>data = [0, 0], page_id = - 1, pin_count = 0, is_dirty = False\<rparr>],
      replacer = \<lparr>size_lru = 2, list_t = [0]\<rparr>, free_list = [1],
      page_table = [(0, 0)], disk_manager = ex_disk\<rparr>"
  by (simp add: ex_dirty2_def ex_fresh2_def bpm_defs numeral_2_eq_2)

lemmas run_defs = bpm_run_def ex_fresh_def ex_fresh2_def ex_disk_def bpm_defs numeral_2_eq_2

lemma ex_stale_victim_val:
  "ex_stale_victim =
     \<lparr>pool_size = 2, num_instances = 1, instance_index = 0, next_page_id = 2,
      pages = [\<lparr>data = [0, 0], page_id = 1, pin_count = 1, is_dirty = False\<rparr>,
               \<lparr>data = [0, 0], page_id = 1, pin_count = 0, is_dirty = True\<rparr>],
      replacer = \<lparr>size_lru = 2, list_t = [1]\<rparr>, free_list = [],
      page_table = [(1, 0), (0, 1)],
      disk_manager = \<lparr>persisted = (\<lambda>pid. [0, 0]), read_fails = (\<lambda>pid. pid = 7),
                        calls = [ReadEv 1]\<rparr>\<rparr>"
  by (simp add: ex_stale_victim_def run_defs)

lemma ex_free_and_unpinned_val:
  "ex_free_and_unpinned =
     \<lparr>pool_size = 1, num_instances = 1, instance_index = 0, next_page_id = 2,
      pages = [\<lparr>data = [0, 0], page_id = 1, pin_count = 0, is_dirty = True\<rparr>],
      replacer = \<lparr>size_lru = 1, list_t = [0]\<rparr>, free_list = [0],
      page_table = [(0, 0), (1, 0)], disk_manager = ex_disk\<rparr>"
  by (simp add: ex_free_and_unpinned_def run_defs)

lemma ex_two_entries_val:
  "ex_two_entries =
     \<lparr>pool_size = 1, num_instances = 1, instance_index = 0, next_page_id = 2,
      pages = [\<lparr>data = [0, 0], page_id = 1, pin_count = 0, is_dirty = True\<rparr>],
      replacer = \<lparr>size_lru = 1, list_t = [0]\<rparr>, free_list = [],
      page_table = [(0, 0), (1, 0)], disk_manager = ex_disk\<rparr>"
  by (simp add: ex_two_entries_def run_defs)

section \<open>Picking a frame\<close>

lemma pick_frame_free:
  "free_list s \<noteq> [] \<Longrightarrow>
   pick_frame s = (Some (hd (free_list s)), s\<lparr>free_list := tl (free_list s)\<rparr>)"
  by (simp add: pick_frame_def)

lemma pick_frame_dirty_victim:
  assumes "free_list s = []" and "list_t (replacer s) = f # rest"
    and "f < length (pages s)" and "is_dirty (pages s ! f)"
    and "map_of (page_table s) (page_id (pages s ! f)) = Some f"
  shows "pick_frame s =
     (Some f,
      s\<lparr>replacer := (replacer s)\<lparr>list_t := rest\<rparr>,
        disk_manager := WritePage (page_id (pages s ! f)) (data (pages s ! f)) (disk_manager s),
        pages := (pages s)[f := (pages s ! f)\<lparr>is_dirty := False\<rparr>],
        page_table := pt_erase (page_id (pages s ! f)) (page_table s)\<rparr>)"
  using assms by (simp add: pick_frame_def Victim_def Size_def FlushPgImp_def Let_def)

lemma pick_frame_clean_victim:
  assumes "free_list s = []" and "list_t (replacer s) = f # rest"
    and "\<not> is_dirty (pages s ! f)"
  shows "pick_frame s =
     (Some f,
      s\<lparr>replacer := (replacer s)\<lparr>list_t := rest\<rparr>,
        page_table := pt_erase (page_id (pages s ! f)) (page_table s)\<rparr>)"
  using assms by (simp add: pick_frame_def Victim_def Size_def Let_def)

text \<open>Outside those states the block makes no nested call.\<close>

lemma pick_frame_without_nested_flush:
  assumes "\<not> nested_flush s"
  shows "pick_frame s =
     (if free_list s \<noteq> [] then (Some (hd (free_list s)), s\<lparr>free_list := tl (free_list s)\<rparr>)
      else if Size (replacer s) = 0 then (None, s)
      else (Some (hd (list_t (replacer s))),
            s\<lparr>replacer := (replacer s)\<lparr>list_t := tl (list_t (replacer s))\<rparr>,
              page_table := pt_erase (page_id (pages s ! hd (list_t (replacer s))))
                              (page_table s)\<rparr>))"
  using assms by (auto simp: nested_flush_def pick_frame_def Victim_def Let_def)

text \<open>
  The definitions that take the kind of \<^verbatim>\<open>latch_\<close> as a parameter agree with the ones
  used throughout for a recursive mutex, and for either kind in every state without a
  nested flush; with a plain mutex a nested flush ends the call in a deadlock, after
  \<^verbatim>\<open>Victim\<close> has taken the frame out of the replacer and before anything is written.
\<close>

lemma pick_frame_latched_recursive:
  "pick_frame_latched Recursive_mutex s = (Inr (fst (pick_frame s)), snd (pick_frame s))"
  by (simp add: pick_frame_latched_def pick_frame_def Let_def split: prod.splits option.splits)

lemma pick_frame_latched_no_nested_flush:
  "\<not> nested_flush s \<Longrightarrow>
   pick_frame_latched k s = (Inr (fst (pick_frame s)), snd (pick_frame s))"
  by (auto simp: pick_frame_latched_def pick_frame_def nested_flush_def Victim_def Let_def)

lemma pick_frame_latched_plain_nested:
  "nested_flush s \<Longrightarrow>
   pick_frame_latched Plain_mutex s =
     (Inl Deadlock, s\<lparr>replacer := (replacer s)\<lparr>list_t := tl (list_t (replacer s))\<rparr>\<rparr>)"
  by (simp add: pick_frame_latched_def nested_flush_def Victim_def Let_def)

lemma latched_as_modelled:
  assumes "k = Recursive_mutex \<or> \<not> nested_flush s"
  shows "NewPgImp_latched k s = NewPgImp s \<and> FetchPgImp_latched k p s = FetchPgImp p s"
proof -
  have pf: "pick_frame_latched k s = (Inr (fst (pick_frame s)), snd (pick_frame s))"
    using assms pick_frame_latched_recursive pick_frame_latched_no_nested_flush by blast
  obtain f s1 where p: "pick_frame s = (f, s1)" by (cases "pick_frame s")
  have n: "NewPgImp_latched k s = NewPgImp s"
    by (cases f) (simp_all add: NewPgImp_latched_def NewPgImp_def pf p)
  have f: "FetchPgImp_latched k p s = FetchPgImp p s"
    by (cases f; cases "map_of (page_table s) p")
       (simp_all add: FetchPgImp_latched_def FetchPgImp_def pf p)
  from n f show ?thesis by simp
qed

lemma latched_plain_nested:
  assumes "nested_flush s"
  shows "NewPgImp_latched Plain_mutex s =
           (Inl Deadlock, s\<lparr>replacer := (replacer s)\<lparr>list_t := tl (list_t (replacer s))\<rparr>\<rparr>)
       \<and> (map_of (page_table s) p = None \<longrightarrow>
            FetchPgImp_latched Plain_mutex p s =
              (Inl Deadlock, s\<lparr>replacer := (replacer s)\<lparr>list_t := tl (list_t (replacer s))\<rparr>\<rparr>))"
  using assms pick_frame_latched_plain_nested [OF assms]
  by (cases "map_of (page_table s) p")
     (simp_all add: NewPgImp_latched_def FetchPgImp_latched_def nested_flush_def)

lemma plain_mutex_deadlocks_on_dirty_victim:
  "nested_flush ex_dirty
   \<and> NewPgImp_latched Plain_mutex ex_dirty =
       (Inl Deadlock, ex_dirty\<lparr>replacer := \<lparr>size_lru = 1, list_t = []\<rparr>\<rparr>)"
proof -
  have n: "nested_flush ex_dirty"
    by (simp add: ex_dirty_val nested_flush_def Size_def)
  have r: "(replacer ex_dirty)\<lparr>list_t := tl (list_t (replacer ex_dirty))\<rparr> =
           \<lparr>size_lru = 1, list_t = []\<rparr>"
    by (simp add: ex_dirty_val)
  from latched_plain_nested [OF n, of 0] n r show ?thesis by simp
qed

lemma AllocatePage_ok:
  "ValidatePageId (next_page_id s) s \<Longrightarrow>
   AllocatePage s = (Inr (next_page_id s), s\<lparr>next_page_id := next_page_id s + int (num_instances s)\<rparr>)"
  by (simp add: AllocatePage_def ValidatePageId_def Let_def)

lemma AllocatePage_fields:
  "pages (snd (AllocatePage s)) = pages s \<and> replacer (snd (AllocatePage s)) = replacer s
   \<and> free_list (snd (AllocatePage s)) = free_list s
   \<and> page_table (snd (AllocatePage s)) = page_table s
   \<and> disk_manager (snd (AllocatePage s)) = disk_manager s"
  by (simp add: AllocatePage_def Let_def)

lemma NewPgImp_disk: "disk_manager (snd (NewPgImp s)) = disk_manager (snd (pick_frame s))"
  by (auto simp: NewPgImp_def AllocatePage_def Let_def pick_frame_def Victim_def
      split: prod.splits option.splits sum.splits)

lemma NewPgImp_picked:
  assumes "pick_frame s = (Some f, s1)" and "free_list s \<noteq> [] \<or> Size (replacer s) \<noteq> 0"
    and "ValidatePageId (next_page_id s1) s1"
  shows "NewPgImp s =
     (Inr (Some (next_page_id s1, f)),
      s1\<lparr>next_page_id := next_page_id s1 + int (num_instances s1),
         pages := (pages s1)[f := \<lparr>data = replicate (length (data (pages s1 ! f))) 0,
                                   page_id = next_page_id s1, pin_count = 1, is_dirty = False\<rparr>],
         page_table := pt_insert (next_page_id s1) f (page_table s1),
         replacer := Pin f (replacer s1)\<rparr>)"
  using assms
  by (cases "pages s1 ! f") (auto simp: NewPgImp_def AllocatePage_ok ResetMemory_def Let_def)

lemma FetchPgImp_picked:
  assumes "map_of (page_table s) p = None" and "pick_frame s = (Some f, s1)"
    and "free_list s \<noteq> [] \<or> Size (replacer s) \<noteq> 0"
  shows "FetchPgImp p s =
     (if read_fails (disk_manager s1) p then
        (Inl IOFailed,
         s1\<lparr>pages := (pages s1)[f := (pages s1 ! f)\<lparr>page_id := p\<rparr>],
            disk_manager := (disk_manager s1)\<lparr>calls := calls (disk_manager s1) @ [ReadEv p]\<rparr>\<rparr>)
      else
        (Inr (Some f),
         s1\<lparr>disk_manager := (disk_manager s1)\<lparr>calls := calls (disk_manager s1) @ [ReadEv p]\<rparr>,
            pages := (pages s1)[f := \<lparr>data = persisted (disk_manager s1) p, page_id = p,
                                     pin_count = 1, is_dirty = False\<rparr>],
            page_table := pt_insert p f (page_table s1),
            replacer := Pin f (replacer s1)\<rparr>))"
  using assms
  by (cases "pages s1 ! f") (auto simp: FetchPgImp_def ReadPage_def Let_def)

text \<open>
  The write-back of a dirty victim where the bookkeeping is intact. Let the free list be
  empty, so that \<^verbatim>\<open>NewPgImp\<close> and \<^verbatim>\<open>FetchPgImp\<close> take the front \<open>f\<close> of the replacer as
  their victim, let frame \<open>f\<close> be dirty, and let the page table map the page id held by
  \<open>f\<close> to \<open>f\<close>. Then the victim block yields \<open>f\<close>, having written the frame's bytes to the
  disk under the frame's page id, cleared the dirty flag (the frame still holds its old
  page id and bytes at that point) and erased the old page id from the page table.
  \<^verbatim>\<open>NewPgImp\<close> ends with exactly that one write added to the disk's calls, and, when the
  allocator's assertion holds, with the frame zeroed, pinned once, clean and assigned the
  new id, the old id unmapped unless the new id is the same number. \<^verbatim>\<open>FetchPgImp\<close> of a
  page that is not resident issues the write before its read, and leaves the old id
  unmapped; when the read succeeds the frame holds the bytes read, pinned once and clean.
\<close>

lemma dirty_victim_written_back:
  assumes fl: "free_list s = []" and rl: "list_t (replacer s) = f # rest"
    and lt: "f < length (pages s)" and dirty: "is_dirty (pages s ! f)"
    and mp: "map_of (page_table s) (page_id (pages s ! f)) = Some f"
  shows "fst (pick_frame s) = Some f
       \<and> disk_manager (snd (pick_frame s)) =
           WritePage (page_id (pages s ! f)) (data (pages s ! f)) (disk_manager s)
       \<and> pages (snd (pick_frame s)) ! f = (pages s ! f)\<lparr>is_dirty := False\<rparr>
       \<and> map_of (page_table (snd (pick_frame s))) (page_id (pages s ! f)) = None
       \<and> calls (disk_manager (snd (NewPgImp s))) =
           calls (disk_manager s) @ [WriteEv (page_id (pages s ! f)) (data (pages s ! f))]
       \<and> persisted (disk_manager (snd (NewPgImp s))) (page_id (pages s ! f)) = data (pages s ! f)
       \<and> (ValidatePageId (next_page_id s) s \<longrightarrow>
            fst (NewPgImp s) = Inr (Some (next_page_id s, f))
            \<and> pages (snd (NewPgImp s)) ! f =
                \<lparr>data = replicate (length (data (pages s ! f))) 0, page_id = next_page_id s,
                 pin_count = 1, is_dirty = False\<rparr>
            \<and> (next_page_id s \<noteq> page_id (pages s ! f) \<longrightarrow>
                 map_of (page_table (snd (NewPgImp s))) (page_id (pages s ! f)) = None))
       \<and> (map_of (page_table s) p = None \<longrightarrow>
            calls (disk_manager (snd (FetchPgImp p s))) =
              calls (disk_manager s) @
                [WriteEv (page_id (pages s ! f)) (data (pages s ! f)), ReadEv p]
            \<and> persisted (disk_manager (snd (FetchPgImp p s))) (page_id (pages s ! f)) =
                data (pages s ! f)
            \<and> map_of (page_table (snd (FetchPgImp p s))) (page_id (pages s ! f)) = None
            \<and> (\<not> read_fails (disk_manager s) p \<longrightarrow>
                 fst (FetchPgImp p s) = Inr (Some f)
                 \<and> pages (snd (FetchPgImp p s)) ! f =
                     \<lparr>data = persisted (disk_manager s) p, page_id = p,
                      pin_count = 1, is_dirty = False\<rparr>))"
proof -
  let ?old = "pages s ! f"
  let ?s1 = "s\<lparr>replacer := (replacer s)\<lparr>list_t := rest\<rparr>,
        disk_manager := WritePage (page_id ?old) (data ?old) (disk_manager s),
        pages := (pages s)[f := ?old\<lparr>is_dirty := False\<rparr>],
        page_table := pt_erase (page_id ?old) (page_table s)\<rparr>"
  have pf: "pick_frame s = (Some f, ?s1)"
    using assms by (rule pick_frame_dirty_victim)
  have guard: "free_list s \<noteq> [] \<or> Size (replacer s) \<noteq> 0"
    using rl by (simp add: Size_def)
  have a: "fst (pick_frame s) = Some f"
    by (simp add: pf)
  have b: "disk_manager (snd (pick_frame s)) = WritePage (page_id ?old) (data ?old) (disk_manager s)"
    by (simp add: pf)
  have c: "pages (snd (pick_frame s)) ! f = ?old\<lparr>is_dirty := False\<rparr>"
    using lt by (simp add: pf)
  have d: "map_of (page_table (snd (pick_frame s))) (page_id ?old) = None"
    by (simp add: pf map_of_pt_erase)
  have n1: "calls (disk_manager (snd (NewPgImp s))) =
           calls (disk_manager s) @ [WriteEv (page_id ?old) (data ?old)]"
    by (simp add: NewPgImp_disk pf WritePage_def)
  have n2: "persisted (disk_manager (snd (NewPgImp s))) (page_id ?old) = data ?old"
    by (simp add: NewPgImp_disk pf WritePage_def)
  have n3: "ValidatePageId (next_page_id s) s \<longrightarrow>
            fst (NewPgImp s) = Inr (Some (next_page_id s, f))
            \<and> pages (snd (NewPgImp s)) ! f =
                \<lparr>data = replicate (length (data ?old)) 0, page_id = next_page_id s,
                 pin_count = 1, is_dirty = False\<rparr>
            \<and> (next_page_id s \<noteq> page_id ?old \<longrightarrow>
                 map_of (page_table (snd (NewPgImp s))) (page_id ?old) = None)"
  proof
    assume v: "ValidatePageId (next_page_id s) s"
    then have v1: "ValidatePageId (next_page_id ?s1) ?s1"
      by (simp add: ValidatePageId_def)
    show "fst (NewPgImp s) = Inr (Some (next_page_id s, f))
            \<and> pages (snd (NewPgImp s)) ! f =
                \<lparr>data = replicate (length (data ?old)) 0, page_id = next_page_id s,
                 pin_count = 1, is_dirty = False\<rparr>
            \<and> (next_page_id s \<noteq> page_id ?old \<longrightarrow>
                 map_of (page_table (snd (NewPgImp s))) (page_id ?old) = None)"
      using lt by (simp add: NewPgImp_picked [OF pf guard v1] map_of_pt_insert map_of_pt_erase)
  qed
  have f1: "map_of (page_table s) p = None \<longrightarrow>
            calls (disk_manager (snd (FetchPgImp p s))) =
              calls (disk_manager s) @ [WriteEv (page_id ?old) (data ?old), ReadEv p]
            \<and> persisted (disk_manager (snd (FetchPgImp p s))) (page_id ?old) = data ?old
            \<and> map_of (page_table (snd (FetchPgImp p s))) (page_id ?old) = None
            \<and> (\<not> read_fails (disk_manager s) p \<longrightarrow>
                 fst (FetchPgImp p s) = Inr (Some f)
                 \<and> pages (snd (FetchPgImp p s)) ! f =
                     \<lparr>data = persisted (disk_manager s) p, page_id = p,
                      pin_count = 1, is_dirty = False\<rparr>)"
  proof
    assume miss: "map_of (page_table s) p = None"
    with mp have ne: "p \<noteq> page_id ?old" by auto
    show "calls (disk_manager (snd (FetchPgImp p s))) =
              calls (disk_manager s) @ [WriteEv (page_id ?old) (data ?old), ReadEv p]
            \<and> persisted (disk_manager (snd (FetchPgImp p s))) (page_id ?old) = data ?old
            \<and> map_of (page_table (snd (FetchPgImp p s))) (page_id ?old) = None
            \<and> (\<not> read_fails (disk_manager s) p \<longrightarrow>
                 fst (FetchPgImp p s) = Inr (Some f)
                 \<and> pages (snd (FetchPgImp p s)) ! f =
                     \<lparr>data = persisted (disk_manager s) p, page_id = p,
                      pin_count = 1, is_dirty = False\<rparr>)"
      using lt ne
      by (simp add: FetchPgImp_picked [OF miss pf guard] WritePage_def
          map_of_pt_insert map_of_pt_erase)
  qed
  from a b c d n1 n2 n3 f1 show ?thesis by blast
qed

lemma dirty_victim_written_back_example:
  "free_list ex_dirty = [] \<and> list_t (replacer ex_dirty) = [0]
   \<and> 0 < length (pages ex_dirty) \<and> is_dirty (pages ex_dirty ! 0)
   \<and> map_of (page_table ex_dirty) (page_id (pages ex_dirty ! 0)) = Some 0
   \<and> ValidatePageId (next_page_id ex_dirty) ex_dirty
   \<and> map_of (page_table ex_dirty) 3 = None
   \<and> \<not> read_fails (disk_manager ex_dirty) 3
   \<and> calls (disk_manager (snd (NewPgImp ex_dirty))) = [WriteEv 0 [0, 0]]
   \<and> fst (NewPgImp ex_dirty) = Inr (Some (1, 0))
   \<and> pages (snd (NewPgImp ex_dirty)) ! 0 =
       \<lparr>data = [0, 0], page_id = 1, pin_count = 1, is_dirty = False\<rparr>
   \<and> map_of (page_table (snd (NewPgImp ex_dirty))) 0 = None
   \<and> calls (disk_manager (snd (FetchPgImp 3 ex_dirty))) = [WriteEv 0 [0, 0], ReadEv 3]
   \<and> fst (FetchPgImp 3 ex_dirty) = Inr (Some 0)
   \<and> pages (snd (FetchPgImp 3 ex_dirty)) ! 0 =
       \<lparr>data = [0, 0], page_id = 3, pin_count = 1, is_dirty = False\<rparr>
   \<and> map_of (page_table (snd (FetchPgImp 3 ex_dirty))) 0 = None"
proof -
  have h1: "free_list ex_dirty = []" by (simp add: ex_dirty_val)
  have h2: "list_t (replacer ex_dirty) = 0 # []" by (simp add: ex_dirty_val)
  have h3: "0 < length (pages ex_dirty)" by (simp add: ex_dirty_val)
  have h4: "is_dirty (pages ex_dirty ! 0)" by (simp add: ex_dirty_val)
  have h5: "map_of (page_table ex_dirty) (page_id (pages ex_dirty ! 0)) = Some 0"
    by (simp add: ex_dirty_val)
  have v: "ValidatePageId (next_page_id ex_dirty) ex_dirty"
    by (simp add: ex_dirty_val ValidatePageId_def)
  have e: "map_of (page_table ex_dirty) 3 = None"
      "\<not> read_fails (disk_manager ex_dirty) 3"
      "next_page_id ex_dirty = 1" "pages ex_dirty ! 0 = \<lparr>data = [0, 0], page_id = 0, pin_count = 0, is_dirty = True\<rparr>"
      "calls (disk_manager ex_dirty) = []" "persisted (disk_manager ex_dirty) 3 = [0, 0]"
    by (simp_all add: ex_dirty_val ex_disk_def)
  from dirty_victim_written_back [OF h1 h2 h3 h4 h5, of 3] h1 h2 h3 h4 h5 v e
  show ?thesis by (simp add: numeral_2_eq_2)
qed

text \<open>
  Claim C3, at a state in which the page table does not map the victim's page id to the
  victim (\<open>ex_stale_victim\<close>: the free list is empty, the replacer holds frame 1, frame 1
  is dirty and holds page 1, and the page table maps page 1 to frame 0, which is pinned
  and clean). \<^verbatim>\<open>NewPgImp\<close> takes frame 1 as its victim and reassigns it to page 2 without
  any write to the disk (the nested \<^verbatim>\<open>FlushPgImp(1)\<close> looks at frame 0 and finds it clean),
  and the entry it erases from the page table is that of frame 0, which still holds
  page 1. \<^verbatim>\<open>FetchPgImp\<close> of page 5 does the same: its only disk call is the read. That is
  the behaviour with a recursive \<^verbatim>\<open>latch_\<close>; with a plain one both calls end in a deadlock
  at the nested flush, again without any write.
\<close>

theorem dirty_victim_reassigned_unwritten:
  "free_list ex_stale_victim = []
   \<and> list_t (replacer ex_stale_victim) = [1]
   \<and> pages ex_stale_victim ! 1 =
        \<lparr>data = [0, 0], page_id = 1, pin_count = 0, is_dirty = True\<rparr>
   \<and> map_of (page_table ex_stale_victim) 1 = Some 0
   \<and> calls (disk_manager ex_stale_victim) = [ReadEv 1]
   \<and> fst (NewPgImp ex_stale_victim) = Inr (Some (2, 1))
   \<and> calls (disk_manager (snd (NewPgImp ex_stale_victim))) = [ReadEv 1]
   \<and> pages (snd (NewPgImp ex_stale_victim)) ! 1 =
        \<lparr>data = [0, 0], page_id = 2, pin_count = 1, is_dirty = False\<rparr>
   \<and> pages (snd (NewPgImp ex_stale_victim)) ! 0 =
        \<lparr>data = [0, 0], page_id = 1, pin_count = 1, is_dirty = False\<rparr>
   \<and> page_table (snd (NewPgImp ex_stale_victim)) = [(0, 1), (2, 1)]
   \<and> fst (FetchPgImp 5 ex_stale_victim) = Inr (Some 1)
   \<and> calls (disk_manager (snd (FetchPgImp 5 ex_stale_victim))) = [ReadEv 1, ReadEv 5]
   \<and> page_table (snd (FetchPgImp 5 ex_stale_victim)) = [(0, 1), (5, 1)]
   \<and> NewPgImp_latched Recursive_mutex ex_stale_victim = NewPgImp ex_stale_victim
   \<and> FetchPgImp_latched Recursive_mutex 5 ex_stale_victim = FetchPgImp 5 ex_stale_victim
   \<and> fst (NewPgImp_latched Plain_mutex ex_stale_victim) = Inl Deadlock
   \<and> calls (disk_manager (snd (NewPgImp_latched Plain_mutex ex_stale_victim))) = [ReadEv 1]
   \<and> fst (FetchPgImp_latched Plain_mutex 5 ex_stale_victim) = Inl Deadlock
   \<and> calls (disk_manager (snd (FetchPgImp_latched Plain_mutex 5 ex_stale_victim))) =
        [ReadEv 1]"
proof -
  have a: "free_list ex_stale_victim = []
   \<and> list_t (replacer ex_stale_victim) = [1]
   \<and> pages ex_stale_victim ! 1 =
        \<lparr>data = [0, 0], page_id = 1, pin_count = 0, is_dirty = True\<rparr>
   \<and> map_of (page_table ex_stale_victim) 1 = Some 0
   \<and> calls (disk_manager ex_stale_victim) = [ReadEv 1]
   \<and> fst (NewPgImp ex_stale_victim) = Inr (Some (2, 1))
   \<and> calls (disk_manager (snd (NewPgImp ex_stale_victim))) = [ReadEv 1]
   \<and> pages (snd (NewPgImp ex_stale_victim)) ! 1 =
        \<lparr>data = [0, 0], page_id = 2, pin_count = 1, is_dirty = False\<rparr>
   \<and> pages (snd (NewPgImp ex_stale_victim)) ! 0 =
        \<lparr>data = [0, 0], page_id = 1, pin_count = 1, is_dirty = False\<rparr>
   \<and> page_table (snd (NewPgImp ex_stale_victim)) = [(0, 1), (2, 1)]
   \<and> fst (FetchPgImp 5 ex_stale_victim) = Inr (Some 1)
   \<and> calls (disk_manager (snd (FetchPgImp 5 ex_stale_victim))) = [ReadEv 1, ReadEv 5]
   \<and> page_table (snd (FetchPgImp 5 ex_stale_victim)) = [(0, 1), (5, 1)]"
    by (simp add: ex_stale_victim_val bpm_defs)
  have n: "nested_flush ex_stale_victim"
    by (simp add: ex_stale_victim_val nested_flush_def Size_def)
  have m: "map_of (page_table ex_stale_victim) 5 = None"
    by (simp add: ex_stale_victim_val)
  have r: "NewPgImp_latched Recursive_mutex ex_stale_victim = NewPgImp ex_stale_victim
   \<and> FetchPgImp_latched Recursive_mutex 5 ex_stale_victim = FetchPgImp 5 ex_stale_victim"
    by (rule latched_as_modelled) simp
  have c: "calls (disk_manager ex_stale_victim) = [ReadEv 1]"
    using a by blast
  have d: "fst (NewPgImp_latched Plain_mutex ex_stale_victim) = Inl Deadlock
   \<and> calls (disk_manager (snd (NewPgImp_latched Plain_mutex ex_stale_victim))) = [ReadEv 1]
   \<and> fst (FetchPgImp_latched Plain_mutex 5 ex_stale_victim) = Inl Deadlock
   \<and> calls (disk_manager (snd (FetchPgImp_latched Plain_mutex 5 ex_stale_victim))) =
        [ReadEv 1]"
    using latched_plain_nested [OF n, of 5] m c by simp
  from a r d show ?thesis by blast
qed

section \<open>A failing read in FetchPage\<close>

lemma pick_frame_read_fails:
  "read_fails (disk_manager (snd (pick_frame s))) = read_fails (disk_manager s)"
  by (simp add: pick_frame_def Victim_def FlushPgImp_def WritePage_def Let_def
      split: option.splits)

lemma pick_frame_victim:
  assumes "free_list s = []" and "list_t (replacer s) \<noteq> []"
  shows "fst (pick_frame s) = Some (hd (list_t (replacer s)))
       \<and> free_list (snd (pick_frame s)) = []
       \<and> replacer (snd (pick_frame s)) = (replacer s)\<lparr>list_t := tl (list_t (replacer s))\<rparr>"
  using assms
  by (simp add: pick_frame_def Victim_def Size_def FlushPgImp_def Let_def split: option.splits)

lemma pick_frame_table_miss:
  "map_of (page_table s) p = None \<Longrightarrow> map_of (page_table (snd (pick_frame s))) p = None"
  by (simp add: pick_frame_def Victim_def FlushPgImp_def Let_def map_of_pt_erase
      split: option.splits)

lemma page_id_after_clearing:
  "page_id ((xs[g := (xs ! g)\<lparr>is_dirty := False\<rparr>]) ! v) = page_id (xs ! v)"
proof (cases "g = v \<and> v < length xs")
  case True
  then show ?thesis by simp
next
  case False
  then show ?thesis by (cases "g = v") (auto simp: list_update_beyond)
qed

lemma pick_frame_victim_table:
  assumes "free_list s = []" and "list_t (replacer s) \<noteq> []"
  shows "page_table (snd (pick_frame s)) =
           pt_erase (page_id (pages s ! hd (list_t (replacer s)))) (page_table s)"
  using assms
  by (simp add: pick_frame_def Victim_def Size_def FlushPgImp_def Let_def page_id_after_clearing
      split: option.splits)

text \<open>
  Claim C4, as the code has it. When \<^verbatim>\<open>FetchPgImp\<close> misses, a frame is available and the
  read of the page fails, the failure reaches the caller and the page id is not in the page
  table. The chosen frame is not given back: a frame taken from the free list stays off
  the free list (replacer and page table are untouched, and the frame differs from before
  only in its page id, which is already the requested one); a frame taken from the
  replacer stays out of the replacer, the free list stays empty, the page id the frame
  held is erased from the page table, and the frame's page id is the requested one.
\<close>

theorem FetchPgImp_read_failure:
  assumes miss: "map_of (page_table s) p = None"
    and fails: "read_fails (disk_manager s) p"
    and avail: "free_list s \<noteq> [] \<or> list_t (replacer s) \<noteq> []"
  shows "fst (FetchPgImp p s) = Inl IOFailed
       \<and> map_of (page_table (snd (FetchPgImp p s))) p = None
       \<and> (free_list s \<noteq> [] \<longrightarrow>
            free_list (snd (FetchPgImp p s)) = tl (free_list s)
            \<and> replacer (snd (FetchPgImp p s)) = replacer s
            \<and> page_table (snd (FetchPgImp p s)) = page_table s
            \<and> pages (snd (FetchPgImp p s)) =
                (pages s)[hd (free_list s) := (pages s ! hd (free_list s))\<lparr>page_id := p\<rparr>])
       \<and> (free_list s = [] \<longrightarrow>
            free_list (snd (FetchPgImp p s)) = []
            \<and> replacer (snd (FetchPgImp p s)) =
                (replacer s)\<lparr>list_t := tl (list_t (replacer s))\<rparr>
            \<and> page_table (snd (FetchPgImp p s)) =
                pt_erase (page_id (pages s ! hd (list_t (replacer s)))) (page_table s)
            \<and> (hd (list_t (replacer s)) < length (pages s) \<longrightarrow>
                 page_id (pages (snd (FetchPgImp p s)) ! hd (list_t (replacer s))) = p))"
proof -
  have guard: "free_list s \<noteq> [] \<or> Size (replacer s) \<noteq> 0"
    using avail by (simp add: Size_def)
  then have "fst (pick_frame s) \<noteq> None" by (rule pick_frame_some)
  then obtain f s1 where pf: "pick_frame s = (Some f, s1)"
    by (cases "pick_frame s") auto
  have rf: "read_fails (disk_manager s1) p"
    using pick_frame_read_fails [of s] pf fails by simp
  have res: "FetchPgImp p s =
        (Inl IOFailed,
         s1\<lparr>pages := (pages s1)[f := (pages s1 ! f)\<lparr>page_id := p\<rparr>],
            disk_manager := (disk_manager s1)\<lparr>calls := calls (disk_manager s1) @ [ReadEv p]\<rparr>\<rparr>)"
    using FetchPgImp_picked [OF miss pf guard] rf by simp
  have a: "fst (FetchPgImp p s) = Inl IOFailed"
    by (simp add: res)
  have b: "map_of (page_table (snd (FetchPgImp p s))) p = None"
    using pick_frame_table_miss [OF miss] pf by (simp add: res)
  have c: "free_list s \<noteq> [] \<longrightarrow>
            free_list (snd (FetchPgImp p s)) = tl (free_list s)
            \<and> replacer (snd (FetchPgImp p s)) = replacer s
            \<and> page_table (snd (FetchPgImp p s)) = page_table s
            \<and> pages (snd (FetchPgImp p s)) =
                (pages s)[hd (free_list s) := (pages s ! hd (free_list s))\<lparr>page_id := p\<rparr>]"
  proof
    assume ne: "free_list s \<noteq> []"
    from pick_frame_free [OF ne] pf
    have "f = hd (free_list s)" and "s1 = s\<lparr>free_list := tl (free_list s)\<rparr>" by simp_all
    then show "free_list (snd (FetchPgImp p s)) = tl (free_list s)
            \<and> replacer (snd (FetchPgImp p s)) = replacer s
            \<and> page_table (snd (FetchPgImp p s)) = page_table s
            \<and> pages (snd (FetchPgImp p s)) =
                (pages s)[hd (free_list s) := (pages s ! hd (free_list s))\<lparr>page_id := p\<rparr>]"
      by (simp add: res)
  qed
  have d: "free_list s = [] \<longrightarrow>
            free_list (snd (FetchPgImp p s)) = []
            \<and> replacer (snd (FetchPgImp p s)) =
                (replacer s)\<lparr>list_t := tl (list_t (replacer s))\<rparr>
            \<and> page_table (snd (FetchPgImp p s)) =
                pt_erase (page_id (pages s ! hd (list_t (replacer s)))) (page_table s)
            \<and> (hd (list_t (replacer s)) < length (pages s) \<longrightarrow>
                 page_id (pages (snd (FetchPgImp p s)) ! hd (list_t (replacer s))) = p)"
  proof
    assume e: "free_list s = []"
    with avail have ne: "list_t (replacer s) \<noteq> []" by simp
    from pick_frame_victim [OF e ne] pf
    have f: "f = hd (list_t (replacer s))" and fl: "free_list s1 = []"
      and r: "replacer s1 = (replacer s)\<lparr>list_t := tl (list_t (replacer s))\<rparr>"
      by simp_all
    from pick_frame_victim_table [OF e ne] pf
    have t: "page_table s1 =
               pt_erase (page_id (pages s ! hd (list_t (replacer s)))) (page_table s)"
      by simp
    have len: "length (pages s1) = length (pages s)"
      using pf e ne
      by (auto simp: pick_frame_def Victim_def Size_def FlushPgImp_def Let_def
          split: option.splits if_splits)
    show "free_list (snd (FetchPgImp p s)) = []
            \<and> replacer (snd (FetchPgImp p s)) =
                (replacer s)\<lparr>list_t := tl (list_t (replacer s))\<rparr>
            \<and> page_table (snd (FetchPgImp p s)) =
                pt_erase (page_id (pages s ! hd (list_t (replacer s)))) (page_table s)
            \<and> (hd (list_t (replacer s)) < length (pages s) \<longrightarrow>
                 page_id (pages (snd (FetchPgImp p s)) ! hd (list_t (replacer s))) = p)"
      using f fl r len t by (simp add: res)
  qed
  from a b c d show ?thesis by blast
qed

theorem FetchPgImp_read_failure_witness:
  "map_of (page_table ex_clean) 7 = None \<and> read_fails (disk_manager ex_clean) 7
   \<and> list_t (replacer ex_clean) = [0]
   \<and> fst (FetchPgImp 7 ex_clean) = Inl IOFailed
   \<and> map_of (page_table (snd (FetchPgImp 7 ex_clean))) 7 = None
   \<and> free_list (snd (FetchPgImp 7 ex_clean)) = []
   \<and> list_t (replacer (snd (FetchPgImp 7 ex_clean))) = []
   \<and> page_table (snd (FetchPgImp 7 ex_clean)) = []
   \<and> page_id (pages (snd (FetchPgImp 7 ex_clean)) ! 0) = 7"
proof -
  have h1: "map_of (page_table ex_clean) 7 = None" by (simp add: ex_clean_val)
  have h2: "read_fails (disk_manager ex_clean) 7" by (simp add: ex_clean_val ex_disk_def)
  have h3: "free_list ex_clean \<noteq> [] \<or> list_t (replacer ex_clean) \<noteq> []"
    by (simp add: ex_clean_val)
  have e: "free_list ex_clean = []" "list_t (replacer ex_clean) = [0]"
    "length (pages ex_clean) = 1" "replacer ex_clean = \<lparr>size_lru = 1, list_t = [0]\<rparr>"
    "page_table ex_clean = [(0, 0)]" "page_id (pages ex_clean ! 0) = 0"
    by (simp_all add: ex_clean_val)
  from FetchPgImp_read_failure [OF h1 h2 h3] h1 h2 e show ?thesis
    by (simp add: pt_erase_def)
qed

text \<open>
  Claim C4 as stated fails: on the fresh pool of one frame, fetching page 7 (whose read
  fails) ends with the failure and with frame 0 in neither the free list, the replacer nor
  the page table, its page id overwritten with 7.
\<close>

theorem read_failure_leaks_frame:
  "map_of (page_table ex_fresh) 7 = None
   \<and> read_fails (disk_manager ex_fresh) 7
   \<and> free_list ex_fresh = [0]
   \<and> page_id (pages ex_fresh ! 0) = INVALID_PAGE_ID
   \<and> fst (FetchPgImp 7 ex_fresh) = Inl IOFailed
   \<and> 0 \<notin> set (free_list (snd (FetchPgImp 7 ex_fresh)))
   \<and> 0 \<notin> set (list_t (replacer (snd (FetchPgImp 7 ex_fresh))))
   \<and> page_table (snd (FetchPgImp 7 ex_fresh)) = []
   \<and> page_id (pages (snd (FetchPgImp 7 ex_fresh)) ! 0) = 7"
  by (simp add: ex_fresh_def ex_disk_def bpm_defs)

section \<open>Exhaustion and the priority of the free list\<close>

lemma NewPgImp_none_iff:
  "(fst (NewPgImp s) = Inr None) = (free_list s = [] \<and> list_t (replacer s) = [])"
proof (cases "free_list s = [] \<and> Size (replacer s) = 0")
  case True
  then show ?thesis by (simp add: NewPgImp_def Size_def)
next
  case False
  then have "fst (pick_frame s) \<noteq> None" using pick_frame_some by blast
  then obtain f s1 where pf: "pick_frame s = (Some f, s1)" by (cases "pick_frame s") auto
  with False show ?thesis
    by (auto simp: NewPgImp_def AllocatePage_def Size_def Let_def)
qed

lemma FetchPgImp_none_iff:
  assumes "map_of (page_table s) p = None"
  shows "(fst (FetchPgImp p s) = Inr None) = (free_list s = [] \<and> list_t (replacer s) = [])"
proof (cases "free_list s = [] \<and> Size (replacer s) = 0")
  case True
  with assms show ?thesis by (simp add: FetchPgImp_def Size_def)
next
  case False
  then have "fst (pick_frame s) \<noteq> None" using pick_frame_some by blast
  then obtain f s1 where pf: "pick_frame s = (Some f, s1)" by (cases "pick_frame s") auto
  from False have g: "free_list s \<noteq> [] \<or> Size (replacer s) \<noteq> 0" by simp
  from False have "\<not> (free_list s = [] \<and> list_t (replacer s) = [])" by (simp add: Size_def)
  then show ?thesis
    by (simp add: FetchPgImp_picked [OF assms pf g])
qed

lemma NewPgImp_from_free_list:
  assumes "free_list s \<noteq> []" and "ValidatePageId (next_page_id s) s"
  shows "NewPgImp s =
     (Inr (Some (next_page_id s, hd (free_list s))),
      s\<lparr>free_list := tl (free_list s),
        next_page_id := next_page_id s + int (num_instances s),
        pages := (pages s)[hd (free_list s) :=
                   \<lparr>data = replicate (length (data (pages s ! hd (free_list s)))) 0,
                    page_id = next_page_id s, pin_count = 1, is_dirty = False\<rparr>],
        page_table := pt_insert (next_page_id s) (hd (free_list s)) (page_table s),
        replacer := Pin (hd (free_list s)) (replacer s)\<rparr>)"
proof -
  have pf: "pick_frame s = (Some (hd (free_list s)), s\<lparr>free_list := tl (free_list s)\<rparr>)"
    using assms(1) by (rule pick_frame_free)
  have g: "free_list s \<noteq> [] \<or> Size (replacer s) \<noteq> 0" using assms(1) by simp
  have v: "ValidatePageId (next_page_id (s\<lparr>free_list := tl (free_list s)\<rparr>))
             (s\<lparr>free_list := tl (free_list s)\<rparr>)"
    using assms(2) by (simp add: ValidatePageId_def)
  show ?thesis by (simp add: NewPgImp_picked [OF pf g v])
qed

lemma FetchPgImp_from_free_list:
  assumes "free_list s \<noteq> []" and "map_of (page_table s) p = None"
    and "\<not> read_fails (disk_manager s) p"
  shows "fst (FetchPgImp p s) = Inr (Some (hd (free_list s)))
       \<and> free_list (snd (FetchPgImp p s)) = tl (free_list s)
       \<and> replacer (snd (FetchPgImp p s)) = Pin (hd (free_list s)) (replacer s)
       \<and> page_table (snd (FetchPgImp p s)) = pt_insert p (hd (free_list s)) (page_table s)"
proof -
  have pf: "pick_frame s = (Some (hd (free_list s)), s\<lparr>free_list := tl (free_list s)\<rparr>)"
    using assms(1) by (rule pick_frame_free)
  have g: "free_list s \<noteq> [] \<or> Size (replacer s) \<noteq> 0" using assms(1) by simp
  show ?thesis
    using assms(3) by (simp add: FetchPgImp_picked [OF assms(2) pf g])
qed

lemma NewPgImp_replacer_free:
  assumes "free_list s \<noteq> []" and "hd (free_list s) \<notin> set (list_t (replacer s))"
  shows "replacer (snd (NewPgImp s)) = replacer s"
proof -
  have pf: "pick_frame s = (Some (hd (free_list s)), s\<lparr>free_list := tl (free_list s)\<rparr>)"
    using assms(1) by (rule pick_frame_free)
  show ?thesis
    using assms
    by (auto simp: NewPgImp_def pf AllocatePage_def Let_def Pin_absent)
qed

lemma FetchPgImp_replacer_free:
  assumes "free_list s \<noteq> []" and "hd (free_list s) \<notin> set (list_t (replacer s))"
    and "map_of (page_table s) p = None"
  shows "replacer (snd (FetchPgImp p s)) = replacer s"
proof -
  have pf: "pick_frame s = (Some (hd (free_list s)), s\<lparr>free_list := tl (free_list s)\<rparr>)"
    using assms(1) by (rule pick_frame_free)
  have g: "free_list s \<noteq> [] \<or> Size (replacer s) \<noteq> 0" using assms(1) by simp
  show ?thesis
    using assms(2) by (simp add: FetchPgImp_picked [OF assms(3) pf g] Pin_absent)
qed

text \<open>
  \<^verbatim>\<open>NewPgImp\<close>, and \<^verbatim>\<open>FetchPgImp\<close> of a page that is not resident, return the empty result
  exactly when the free list and the replacer are both empty. When the free list is not
  empty, the frame used is its front, which is popped; \<^verbatim>\<open>Victim\<close> is not called and no
  entry of the page table is erased: on success the replacer's list is the old one with
  at most that same frame taken out (by the closing call of \<^verbatim>\<open>Pin\<close>) and the page table
  is the old one with the new entry inserted, and a replacer that does not hold the frame
  is left as it was.
\<close>

lemma exhaustion_and_free_list_priority:
  "((fst (NewPgImp s) = Inr None) = (free_list s = [] \<and> list_t (replacer s) = []))
   \<and> (map_of (page_table s) p = None \<longrightarrow>
        (fst (FetchPgImp p s) = Inr None) = (free_list s = [] \<and> list_t (replacer s) = []))
   \<and> (free_list s \<noteq> [] \<longrightarrow>
        pick_frame s = (Some (hd (free_list s)), s\<lparr>free_list := tl (free_list s)\<rparr>))
   \<and> (free_list s \<noteq> [] \<and> ValidatePageId (next_page_id s) s \<longrightarrow>
        fst (NewPgImp s) = Inr (Some (next_page_id s, hd (free_list s)))
        \<and> free_list (snd (NewPgImp s)) = tl (free_list s)
        \<and> list_t (replacer (snd (NewPgImp s))) =
            remove1 (hd (free_list s)) (list_t (replacer s))
        \<and> page_table (snd (NewPgImp s)) =
            pt_insert (next_page_id s) (hd (free_list s)) (page_table s))
   \<and> (free_list s \<noteq> [] \<and> map_of (page_table s) p = None
        \<and> \<not> read_fails (disk_manager s) p \<longrightarrow>
        fst (FetchPgImp p s) = Inr (Some (hd (free_list s)))
        \<and> free_list (snd (FetchPgImp p s)) = tl (free_list s)
        \<and> list_t (replacer (snd (FetchPgImp p s))) =
            remove1 (hd (free_list s)) (list_t (replacer s))
        \<and> page_table (snd (FetchPgImp p s)) = pt_insert p (hd (free_list s)) (page_table s))
   \<and> (free_list s \<noteq> [] \<and> hd (free_list s) \<notin> set (list_t (replacer s)) \<longrightarrow>
        replacer (snd (NewPgImp s)) = replacer s
        \<and> (map_of (page_table s) p = None \<longrightarrow> replacer (snd (FetchPgImp p s)) = replacer s))"
proof -
  have a: "(fst (NewPgImp s) = Inr None) = (free_list s = [] \<and> list_t (replacer s) = [])"
    by (rule NewPgImp_none_iff)
  have b: "map_of (page_table s) p = None \<longrightarrow>
        (fst (FetchPgImp p s) = Inr None) = (free_list s = [] \<and> list_t (replacer s) = [])"
    using FetchPgImp_none_iff by blast
  have c: "free_list s \<noteq> [] \<longrightarrow>
        pick_frame s = (Some (hd (free_list s)), s\<lparr>free_list := tl (free_list s)\<rparr>)"
    using pick_frame_free by blast
  have d: "free_list s \<noteq> [] \<and> ValidatePageId (next_page_id s) s \<longrightarrow>
        fst (NewPgImp s) = Inr (Some (next_page_id s, hd (free_list s)))
        \<and> free_list (snd (NewPgImp s)) = tl (free_list s)
        \<and> list_t (replacer (snd (NewPgImp s))) =
            remove1 (hd (free_list s)) (list_t (replacer s))
        \<and> page_table (snd (NewPgImp s)) =
            pt_insert (next_page_id s) (hd (free_list s)) (page_table s)"
    by (simp add: NewPgImp_from_free_list list_t_Pin)
  have e: "free_list s \<noteq> [] \<and> map_of (page_table s) p = None
        \<and> \<not> read_fails (disk_manager s) p \<longrightarrow>
        fst (FetchPgImp p s) = Inr (Some (hd (free_list s)))
        \<and> free_list (snd (FetchPgImp p s)) = tl (free_list s)
        \<and> list_t (replacer (snd (FetchPgImp p s))) =
            remove1 (hd (free_list s)) (list_t (replacer s))
        \<and> page_table (snd (FetchPgImp p s)) = pt_insert p (hd (free_list s)) (page_table s)"
    by (simp add: FetchPgImp_from_free_list list_t_Pin)
  have f: "free_list s \<noteq> [] \<and> hd (free_list s) \<notin> set (list_t (replacer s)) \<longrightarrow>
        replacer (snd (NewPgImp s)) = replacer s
        \<and> (map_of (page_table s) p = None \<longrightarrow> replacer (snd (FetchPgImp p s)) = replacer s)"
    using NewPgImp_replacer_free FetchPgImp_replacer_free by blast
  from a b c d e f show ?thesis by blast
qed

lemma exhaustion_and_free_list_priority_example:
  "free_list ex_fresh \<noteq> [] \<and> ValidatePageId (next_page_id ex_fresh) ex_fresh
   \<and> map_of (page_table ex_fresh) 3 = None \<and> \<not> read_fails (disk_manager ex_fresh) 3
   \<and> hd (free_list ex_fresh) \<notin> set (list_t (replacer ex_fresh))
   \<and> fst (NewPgImp ex_fresh) = Inr (Some (0, 0))
   \<and> free_list (snd (NewPgImp ex_fresh)) = []
   \<and> replacer (snd (NewPgImp ex_fresh)) = replacer ex_fresh
   \<and> fst (FetchPgImp 3 ex_fresh) = Inr (Some 0)
   \<and> free_list (snd (FetchPgImp 3 ex_fresh)) = []
   \<and> replacer (snd (FetchPgImp 3 ex_fresh)) = replacer ex_fresh
   \<and> free_list ex_pinned = [] \<and> list_t (replacer ex_pinned) = []
   \<and> fst (NewPgImp ex_pinned) = Inr None
   \<and> map_of (page_table ex_pinned) 3 = None
   \<and> fst (FetchPgImp 3 ex_pinned) = Inr None"
proof -
  have h: "free_list ex_fresh \<noteq> []" "ValidatePageId (next_page_id ex_fresh) ex_fresh"
    "map_of (page_table ex_fresh) 3 = None" "\<not> read_fails (disk_manager ex_fresh) 3"
    "hd (free_list ex_fresh) \<notin> set (list_t (replacer ex_fresh))"
    by (simp_all add: ex_fresh_def ex_disk_def ValidatePageId_def LRUReplacer_new_def)
  have e: "free_list ex_fresh = [0]" "next_page_id ex_fresh = 0"
    by (simp_all add: ex_fresh_def)
  have k: "free_list ex_pinned = []" "list_t (replacer ex_pinned) = []"
    "map_of (page_table ex_pinned) 3 = None"
    by (simp_all add: ex_pinned_val)
  from exhaustion_and_free_list_priority [of ex_fresh 3]
       exhaustion_and_free_list_priority [of ex_pinned 3] h e k
  show ?thesis by simp
qed

text \<open>
  Claim C5, at a state in which the front of the free list is also a member of the
  replacer (\<open>ex_free_and_unpinned\<close>: the free list and the replacer both hold frame 0,
  which holds the unpinned dirty page 1). \<^verbatim>\<open>NewPgImp\<close> takes frame 0 from the free list,
  reassigns it to page 2 without any write to the disk and drops it from the replacer;
  \<^verbatim>\<open>FetchPgImp\<close> of page 5 does the same, its only disk call being the read. The frame
  reused is a member of the replacer.
\<close>

theorem free_list_frame_taken_from_replacer:
  "free_list ex_free_and_unpinned = [0]
   \<and> list_t (replacer ex_free_and_unpinned) = [0]
   \<and> pages ex_free_and_unpinned ! 0 =
        \<lparr>data = [0, 0], page_id = 1, pin_count = 0, is_dirty = True\<rparr>
   \<and> calls (disk_manager ex_free_and_unpinned) = []
   \<and> fst (NewPgImp ex_free_and_unpinned) = Inr (Some (2, 0))
   \<and> list_t (replacer (snd (NewPgImp ex_free_and_unpinned))) = []
   \<and> calls (disk_manager (snd (NewPgImp ex_free_and_unpinned))) = []
   \<and> pages (snd (NewPgImp ex_free_and_unpinned)) ! 0 =
        \<lparr>data = [0, 0], page_id = 2, pin_count = 1, is_dirty = False\<rparr>
   \<and> fst (FetchPgImp 5 ex_free_and_unpinned) = Inr (Some 0)
   \<and> list_t (replacer (snd (FetchPgImp 5 ex_free_and_unpinned))) = []
   \<and> calls (disk_manager (snd (FetchPgImp 5 ex_free_and_unpinned))) = [ReadEv 5]
   \<and> pages (snd (FetchPgImp 5 ex_free_and_unpinned)) ! 0 =
        \<lparr>data = [0, 0], page_id = 5, pin_count = 1, is_dirty = False\<rparr>"
  by (simp add: ex_free_and_unpinned_val ex_disk_def bpm_defs)

section \<open>The dirty flag\<close>

lemma dirty_after_update:
  "g < length xs \<Longrightarrow> is_dirty (xs ! g) \<Longrightarrow> (f = g \<Longrightarrow> is_dirty v) \<Longrightarrow> is_dirty (xs[f := v] ! g)"
  by (cases "f = g") auto

lemma dirty_other_update:
  "is_dirty (xs ! g) \<Longrightarrow> f \<noteq> g \<Longrightarrow> is_dirty (xs[f := v] ! g)"
  by simp

lemma UnpinPgImp_dirty_set:
  assumes "g < length (pages s)" and "map_of (page_table s) p = Some g"
    and "pin_count (pages s ! g) \<noteq> 0"
  shows "is_dirty (pages (snd (UnpinPgImp p d s)) ! g) = (d \<or> is_dirty (pages s ! g))"
  using assms by (simp add: UnpinPgImp_def Let_def)

lemma UnpinPgImp_dirty_kept:
  assumes "g < length (pages s)" and "is_dirty (pages s ! g)"
  shows "is_dirty (pages (snd (UnpinPgImp p d s)) ! g)"
  using assms
  by (auto simp: UnpinPgImp_def Let_def split: option.splits intro!: dirty_after_update)

lemma FetchPgImp_hit_dirty_kept:
  assumes "g < length (pages s)" and "is_dirty (pages s ! g)"
    and "map_of (page_table s) p \<noteq> None"
  shows "is_dirty (pages (snd (FetchPgImp p s)) ! g)"
  using assms
  by (auto simp: FetchPgImp_def Let_def intro!: dirty_after_update)

lemma FlushPgImp_dirty_kept:
  assumes "is_dirty (pages s ! g)" and "map_of (page_table s) p \<noteq> Some g"
  shows "is_dirty (pages (snd (FlushPgImp p s)) ! g)"
  using assms
  by (auto simp: FlushPgImp_def Let_def split: option.splits)

lemma flush_entries_other:
  "g \<notin> snd ` set es \<Longrightarrow> pages (flush_entries es s) ! g = pages s ! g"
proof (induction es arbitrary: s)
  case Nil
  show ?case by simp
next
  case (Cons v vs)
  then have g: "g \<noteq> snd v" and rest: "g \<notin> snd ` set vs" by auto
  show ?case
    using Cons.IH [OF rest] g by (simp add: Let_def)
qed

lemma FlushAllPgsImp_dirty_kept:
  assumes "is_dirty (pages s ! g)" and "g \<notin> snd ` set (page_table s)"
  shows "is_dirty (pages (FlushAllPgsImp s) ! g)"
  using assms by (simp add: FlushAllPgsImp_def flush_entries_other)

lemma DeletePgImp_dirty_kept:
  assumes "is_dirty (pages s ! g)"
    and "map_of (page_table s) p \<noteq> Some g \<or> pin_count (pages s ! g) \<noteq> 0"
  shows "is_dirty (pages (snd (DeletePgImp p s)) ! g)"
  using assms
  by (auto simp: DeletePgImp_def Let_def split: option.splits intro!: dirty_other_update)

lemma pick_frame_dirty_kept:
  assumes "is_dirty (pages s ! g)"
    and "nested_flush s \<longrightarrow>
           map_of (page_table s) (page_id (pages s ! hd (list_t (replacer s)))) \<noteq> Some g"
  shows "is_dirty (pages (snd (pick_frame s)) ! g)"
  using assms
  by (auto simp: pick_frame_def nested_flush_def Victim_def FlushPgImp_def Let_def
      split: option.splits)

lemma NewPgImp_pages_other:
  assumes "fst (pick_frame s) \<noteq> Some g"
  shows "pages (snd (NewPgImp s)) ! g = pages (snd (pick_frame s)) ! g"
proof (cases "free_list s = [] \<and> Size (replacer s) = 0")
  case True
  then show ?thesis by (simp add: NewPgImp_def pick_frame_def Victim_def)
next
  case False
  then have "fst (pick_frame s) \<noteq> None" using pick_frame_some by blast
  then obtain f s1 where pf: "pick_frame s = (Some f, s1)" by (cases "pick_frame s") auto
  with assms have "f \<noteq> g" by simp
  with False pf show ?thesis
    by (auto simp: NewPgImp_def AllocatePage_def Let_def)
qed

lemma FetchPgImp_miss_pages_other:
  assumes "fst (pick_frame s) \<noteq> Some g" and "map_of (page_table s) p = None"
  shows "pages (snd (FetchPgImp p s)) ! g = pages (snd (pick_frame s)) ! g"
proof (cases "free_list s = [] \<and> Size (replacer s) = 0")
  case True
  with assms(2) show ?thesis by (simp add: FetchPgImp_def pick_frame_def Victim_def)
next
  case False
  then have "fst (pick_frame s) \<noteq> None" using pick_frame_some by blast
  then obtain f s1 where pf: "pick_frame s = (Some f, s1)" by (cases "pick_frame s") auto
  with assms have ne: "f \<noteq> g" by simp
  from False have gd: "free_list s \<noteq> [] \<or> Size (replacer s) \<noteq> 0" by simp
  show ?thesis
    using ne by (simp add: FetchPgImp_picked [OF assms(2) pf gd] pf)
qed

text \<open>
  The dirty flag, frame by frame. For a frame \<open>g\<close> of the pool: unpinning the resident page
  of \<open>g\<close>, pinned at the time, with \<open>is_dirty = true\<close> sets the dirty flag of \<open>g\<close>, and with
  \<open>is_dirty = false\<close> leaves it as it was. A dirty flag that is set stays set across
  \<^verbatim>\<open>UnpinPgImp\<close> (any page, any argument) and across a \<^verbatim>\<open>FetchPgImp\<close> that hits; across
  \<^verbatim>\<open>FlushPgImp\<close> and \<^verbatim>\<open>DeletePgImp\<close> of a page unless the page table maps that page to \<open>g\<close>
  (and across \<^verbatim>\<open>DeletePgImp\<close> also when \<open>g\<close> is pinned); across \<^verbatim>\<open>FlushAllPgsImp\<close> unless
  \<open>g\<close> is in the range of the page table; and across \<^verbatim>\<open>NewPgImp\<close> and a \<^verbatim>\<open>FetchPgImp\<close> that
  misses unless \<open>g\<close> is the frame the call picks for reuse or, in a state with a nested
  flush, the frame to which the page table maps the victim's page id.
\<close>

lemma dirty_flag_sticky:
  assumes "g < length (pages s)"
  shows "(map_of (page_table s) p = Some g \<and> pin_count (pages s ! g) \<noteq> 0 \<longrightarrow>
            is_dirty (pages (snd (UnpinPgImp p True s)) ! g)
            \<and> is_dirty (pages (snd (UnpinPgImp p False s)) ! g) = is_dirty (pages s ! g))
       \<and> (is_dirty (pages s ! g) \<longrightarrow>
            is_dirty (pages (snd (UnpinPgImp p d s)) ! g)
            \<and> (map_of (page_table s) p \<noteq> None \<longrightarrow>
                 is_dirty (pages (snd (FetchPgImp p s)) ! g))
            \<and> (map_of (page_table s) p \<noteq> Some g \<longrightarrow>
                 is_dirty (pages (snd (FlushPgImp p s)) ! g))
            \<and> (g \<notin> snd ` set (page_table s) \<longrightarrow>
                 is_dirty (pages (FlushAllPgsImp s) ! g))
            \<and> (map_of (page_table s) p \<noteq> Some g \<or> pin_count (pages s ! g) \<noteq> 0 \<longrightarrow>
                 is_dirty (pages (snd (DeletePgImp p s)) ! g))
            \<and> (fst (pick_frame s) \<noteq> Some g
                 \<and> (nested_flush s \<longrightarrow>
                      map_of (page_table s) (page_id (pages s ! hd (list_t (replacer s))))
                        \<noteq> Some g) \<longrightarrow>
                 is_dirty (pages (snd (NewPgImp s)) ! g)
                 \<and> (map_of (page_table s) p = None \<longrightarrow>
                      is_dirty (pages (snd (FetchPgImp p s)) ! g))))"
proof -
  have u: "map_of (page_table s) p = Some g \<and> pin_count (pages s ! g) \<noteq> 0 \<longrightarrow>
            is_dirty (pages (snd (UnpinPgImp p True s)) ! g)
            \<and> is_dirty (pages (snd (UnpinPgImp p False s)) ! g) = is_dirty (pages s ! g)"
    using assms by (simp add: UnpinPgImp_dirty_set)
  have k: "is_dirty (pages s ! g) \<longrightarrow>
            is_dirty (pages (snd (UnpinPgImp p d s)) ! g)
            \<and> (map_of (page_table s) p \<noteq> None \<longrightarrow>
                 is_dirty (pages (snd (FetchPgImp p s)) ! g))
            \<and> (map_of (page_table s) p \<noteq> Some g \<longrightarrow>
                 is_dirty (pages (snd (FlushPgImp p s)) ! g))
            \<and> (g \<notin> snd ` set (page_table s) \<longrightarrow>
                 is_dirty (pages (FlushAllPgsImp s) ! g))
            \<and> (map_of (page_table s) p \<noteq> Some g \<or> pin_count (pages s ! g) \<noteq> 0 \<longrightarrow>
                 is_dirty (pages (snd (DeletePgImp p s)) ! g))
            \<and> (fst (pick_frame s) \<noteq> Some g
                 \<and> (nested_flush s \<longrightarrow>
                      map_of (page_table s) (page_id (pages s ! hd (list_t (replacer s))))
                        \<noteq> Some g) \<longrightarrow>
                 is_dirty (pages (snd (NewPgImp s)) ! g)
                 \<and> (map_of (page_table s) p = None \<longrightarrow>
                      is_dirty (pages (snd (FetchPgImp p s)) ! g)))"
  proof
    assume dirty: "is_dirty (pages s ! g)"
    have k1: "is_dirty (pages (snd (UnpinPgImp p d s)) ! g)"
      using assms dirty by (rule UnpinPgImp_dirty_kept)
    have k2: "map_of (page_table s) p \<noteq> None \<longrightarrow> is_dirty (pages (snd (FetchPgImp p s)) ! g)"
      using FetchPgImp_hit_dirty_kept [OF assms dirty] by blast
    have k3: "map_of (page_table s) p \<noteq> Some g \<longrightarrow> is_dirty (pages (snd (FlushPgImp p s)) ! g)"
      using FlushPgImp_dirty_kept [OF dirty] by blast
    have k4: "g \<notin> snd ` set (page_table s) \<longrightarrow> is_dirty (pages (FlushAllPgsImp s) ! g)"
      using FlushAllPgsImp_dirty_kept [OF dirty] by blast
    have k5: "map_of (page_table s) p \<noteq> Some g \<or> pin_count (pages s ! g) \<noteq> 0 \<longrightarrow>
                 is_dirty (pages (snd (DeletePgImp p s)) ! g)"
      using DeletePgImp_dirty_kept [OF dirty] by blast
    have k6: "fst (pick_frame s) \<noteq> Some g
                 \<and> (nested_flush s \<longrightarrow>
                      map_of (page_table s) (page_id (pages s ! hd (list_t (replacer s))))
                        \<noteq> Some g) \<longrightarrow>
                 is_dirty (pages (snd (NewPgImp s)) ! g)
                 \<and> (map_of (page_table s) p = None \<longrightarrow>
                      is_dirty (pages (snd (FetchPgImp p s)) ! g))"
    proof
      assume h: "fst (pick_frame s) \<noteq> Some g
                 \<and> (nested_flush s \<longrightarrow>
                      map_of (page_table s) (page_id (pages s ! hd (list_t (replacer s))))
                        \<noteq> Some g)"
      then have pk: "is_dirty (pages (snd (pick_frame s)) ! g)"
        using pick_frame_dirty_kept [OF dirty] by blast
      from h have ne: "fst (pick_frame s) \<noteq> Some g" by blast
      show "is_dirty (pages (snd (NewPgImp s)) ! g)
                 \<and> (map_of (page_table s) p = None \<longrightarrow>
                      is_dirty (pages (snd (FetchPgImp p s)) ! g))"
        using pk by (simp add: NewPgImp_pages_other [OF ne] FetchPgImp_miss_pages_other [OF ne])
    qed
    from k1 k2 k3 k4 k5 k6
    show "is_dirty (pages (snd (UnpinPgImp p d s)) ! g)
            \<and> (map_of (page_table s) p \<noteq> None \<longrightarrow>
                 is_dirty (pages (snd (FetchPgImp p s)) ! g))
            \<and> (map_of (page_table s) p \<noteq> Some g \<longrightarrow>
                 is_dirty (pages (snd (FlushPgImp p s)) ! g))
            \<and> (g \<notin> snd ` set (page_table s) \<longrightarrow>
                 is_dirty (pages (FlushAllPgsImp s) ! g))
            \<and> (map_of (page_table s) p \<noteq> Some g \<or> pin_count (pages s ! g) \<noteq> 0 \<longrightarrow>
                 is_dirty (pages (snd (DeletePgImp p s)) ! g))
            \<and> (fst (pick_frame s) \<noteq> Some g
                 \<and> (nested_flush s \<longrightarrow>
                      map_of (page_table s) (page_id (pages s ! hd (list_t (replacer s))))
                        \<noteq> Some g) \<longrightarrow>
                 is_dirty (pages (snd (NewPgImp s)) ! g)
                 \<and> (map_of (page_table s) p = None \<longrightarrow>
                      is_dirty (pages (snd (FetchPgImp p s)) ! g)))"
      by blast
  qed
  from u k show ?thesis by blast
qed

lemma dirty_flag_sticky_example:
  "0 < length (pages ex_pinned) \<and> map_of (page_table ex_pinned) 0 = Some 0
   \<and> pin_count (pages ex_pinned ! 0) \<noteq> 0 \<and> \<not> is_dirty (pages ex_pinned ! 0)
   \<and> is_dirty (pages (snd (UnpinPgImp 0 True ex_pinned)) ! 0)
   \<and> \<not> is_dirty (pages (snd (UnpinPgImp 0 False ex_pinned)) ! 0)
   \<and> 0 < length (pages ex_dirty2) \<and> is_dirty (pages ex_dirty2 ! 0)
   \<and> is_dirty (pages (snd (UnpinPgImp 0 False ex_dirty2)) ! 0)
   \<and> is_dirty (pages (snd (FetchPgImp 0 ex_dirty2)) ! 0)
   \<and> is_dirty (pages (snd (FlushPgImp 5 ex_dirty2)) ! 0)
   \<and> is_dirty (pages (snd (DeletePgImp 5 ex_dirty2)) ! 0)
   \<and> is_dirty (pages (FlushAllPgsImp (ex_dirty2\<lparr>page_table := []\<rparr>)) ! 0)
   \<and> fst (pick_frame ex_dirty2) = Some 1
   \<and> is_dirty (pages (snd (NewPgImp ex_dirty2)) ! 0)
   \<and> is_dirty (pages (snd (FetchPgImp 5 ex_dirty2)) ! 0)"
proof -
  have a: "0 < length (pages ex_pinned)" "map_of (page_table ex_pinned) 0 = Some 0"
    "pin_count (pages ex_pinned ! 0) \<noteq> 0" "\<not> is_dirty (pages ex_pinned ! 0)"
    by (simp_all add: ex_pinned_val)
  have b: "0 < length (pages ex_dirty2)" "is_dirty (pages ex_dirty2 ! 0)"
    "map_of (page_table ex_dirty2) 0 = Some 0" "map_of (page_table ex_dirty2) 5 = None"
    "free_list ex_dirty2 \<noteq> []" "\<not> nested_flush ex_dirty2"
    by (simp_all add: ex_dirty2_val nested_flush_def)
  have c: "fst (pick_frame ex_dirty2) = Some 1"
    by (simp add: ex_dirty2_val pick_frame_def)
  have d: "0 < length (pages (ex_dirty2\<lparr>page_table := []\<rparr>))"
    "is_dirty (pages (ex_dirty2\<lparr>page_table := []\<rparr>) ! 0)"
    by (simp_all add: ex_dirty2_val)
  from dirty_flag_sticky [OF d(1), of 0 False] d
       dirty_flag_sticky [OF a(1), of 0 False]
       dirty_flag_sticky [OF b(1), of 0 False]
       dirty_flag_sticky [OF b(1), of 5 False] a b c
  show ?thesis by simp
qed

text \<open>
  Claim C7, at a state in which the page table has two entries for one frame
  (\<open>ex_two_entries\<close>: frame 0 holds page 1, unpinned and dirty, and the page table maps
  both page 0 and page 1 to it). \<^verbatim>\<open>FlushPgImp\<close> of page 0 returns true, writes the bytes of
  frame 0 to the disk under page id 0 and clears the dirty flag of frame 0, which still
  holds page 1: the flag is cleared although page 1 was not flushed and the frame was
  neither reset nor reused.
\<close>

theorem flush_of_another_page_clears_dirty:
  "pages ex_two_entries ! 0 =
        \<lparr>data = [0, 0], page_id = 1, pin_count = 0, is_dirty = True\<rparr>
   \<and> map_of (page_table ex_two_entries) 0 = Some 0
   \<and> calls (disk_manager ex_two_entries) = []
   \<and> fst (FlushPgImp 0 ex_two_entries) = True
   \<and> pages (snd (FlushPgImp 0 ex_two_entries)) ! 0 =
        \<lparr>data = [0, 0], page_id = 1, pin_count = 0, is_dirty = False\<rparr>
   \<and> calls (disk_manager (snd (FlushPgImp 0 ex_two_entries))) = [WriteEv 0 [0, 0]]"
  by (simp add: ex_two_entries_val ex_disk_def bpm_defs)

section \<open>The allocator\<close>

lemma FlushPgImp_allocator: "allocator_of (snd (FlushPgImp p s)) = allocator_of s"
  by (simp add: FlushPgImp_def allocator_of_def Let_def split: option.splits)

lemma flush_entries_allocator: "allocator_of (flush_entries es s) = allocator_of s"
  by (induction es arbitrary: s) (simp_all add: allocator_of_def Let_def)

lemma pick_frame_allocator: "allocator_of (snd (pick_frame s)) = allocator_of s"
  using FlushPgImp_allocator [of _ "s\<lparr>replacer := snd (Victim (replacer s))\<rparr>"]
  by (auto simp: pick_frame_def allocator_of_def Let_def split: option.splits prod.splits)

lemma allocator_kept:
  "allocator_of (snd (FetchPgImp p s)) = allocator_of s
   \<and> allocator_of (snd (UnpinPgImp p d s)) = allocator_of s
   \<and> allocator_of (snd (FlushPgImp p s)) = allocator_of s
   \<and> allocator_of (FlushAllPgsImp s) = allocator_of s
   \<and> allocator_of (snd (DeletePgImp p s)) = allocator_of s"
proof -
  have f: "allocator_of (snd (FetchPgImp p s)) = allocator_of s"
    using pick_frame_allocator [of s]
    by (auto simp: FetchPgImp_def ReadPage_def allocator_of_def Let_def
        split: option.splits prod.splits)
  have u: "allocator_of (snd (UnpinPgImp p d s)) = allocator_of s"
    by (simp add: UnpinPgImp_def allocator_of_def Let_def split: option.splits)
  have a: "allocator_of (FlushAllPgsImp s) = allocator_of s"
    by (simp add: FlushAllPgsImp_def flush_entries_allocator)
  have d: "allocator_of (snd (DeletePgImp p s)) = allocator_of s"
    by (simp add: DeletePgImp_def allocator_of_def Let_def split: option.splits)
  from f u a d FlushPgImp_allocator show ?thesis by blast
qed

lemma NewPgImp_allocator:
  "allocator_of (snd (NewPgImp s)) =
     (if free_list s = [] \<and> list_t (replacer s) = [] then allocator_of s
      else allocator_of (snd (AllocatePage s)))"
proof (cases "free_list s = [] \<and> Size (replacer s) = 0")
  case True
  then show ?thesis by (simp add: NewPgImp_def Size_def)
next
  case False
  then have "fst (pick_frame s) \<noteq> None" using pick_frame_some by blast
  then obtain f s1 where pf: "pick_frame s = (Some f, s1)" by (cases "pick_frame s") auto
  with pick_frame_allocator [of s] have "allocator_of s1 = allocator_of s" by simp
  with False pf show ?thesis
    by (auto simp: NewPgImp_def AllocatePage_def ValidatePageId_def allocator_of_def Size_def
        Let_def)
qed

lemma allocate_n_ids:
  assumes "0 < num_instances s"
    and "next_page_id s mod int (num_instances s) = int (instance_index s)"
  shows "fst (allocate_n n s) =
           Inr (map (\<lambda>k. next_page_id s + int k * int (num_instances s)) [0..<n])"
  using assms
proof (induction n arbitrary: s)
  case 0
  show ?case by simp
next
  case (Suc n)
  let ?s1 = "s\<lparr>next_page_id := next_page_id s + int (num_instances s)\<rparr>"
  have v: "ValidatePageId (next_page_id s) s"
    using Suc.prems(2) by (simp add: ValidatePageId_def)
  have step: "AllocatePage s = (Inr (next_page_id s), ?s1)"
    using v by (rule AllocatePage_ok)
  have pos: "0 < num_instances ?s1" using Suc.prems(1) by simp
  have md: "next_page_id ?s1 mod int (num_instances ?s1) = int (instance_index ?s1)"
    using Suc.prems(2) by simp
  have rest: "fst (allocate_n n ?s1) =
           Inr (map (\<lambda>k. next_page_id s + int (num_instances s) + int k * int (num_instances s))
                  [0..<n])"
    using Suc.IH [OF pos md] by simp
  have shift: "map (\<lambda>k. next_page_id s + int k * int (num_instances s)) [0..<Suc n] =
        next_page_id s #
        map (\<lambda>k. next_page_id s + int (num_instances s) + int k * int (num_instances s)) [0..<n]"
    by (simp only: map_upt_Suc) (simp add: algebra_simps)
  obtain r s2 where an: "allocate_n n ?s1 = (r, s2)" by (cases "allocate_n n ?s1")
  with rest have r: "r = Inr (map (\<lambda>k. next_page_id s + int (num_instances s) + int k * int (num_instances s)) [0..<n])"
    by simp
  show ?case
    unfolding shift by (simp add: step an r)
qed

text \<open>
  Claim C8. For \<open>num_instances > 0\<close> and \<open>instance_index < num_instances\<close> the constructor
  succeeds with the cursor at \<open>instance_index\<close>, and \<open>n\<close> calls of \<^verbatim>\<open>AllocatePage\<close> all
  pass the assertion and return \<open>instance_index\<close>, \<open>instance_index + num_instances\<close>,
  \<open>instance_index + 2 * num_instances\<close>, ...; each of these ids is congruent to
  \<open>instance_index\<close> modulo \<open>num_instances\<close>. In any state whose cursor is
  \<open>instance_index + k * num_instances\<close>, one call returns the cursor and advances it by
  \<open>num_instances\<close>. (The other operations do not touch the cursor: \<open>allocator_kept\<close>,
  \<open>NewPgImp_allocator\<close>.)
\<close>

theorem AllocatePage_partition:
  assumes "0 < ni" and "ii < ni"
  shows "(\<exists>s0. BufferPoolManagerInstance_new PAGE_SIZE pool ni ii dm = Inr s0
            \<and> allocator_of s0 = (int ii, ni, ii)
            \<and> fst (allocate_n n s0) = Inr (map (\<lambda>k. int ii + int k * int ni) [0..<n])
            \<and> list_all (\<lambda>pid. pid mod int ni = int ii)
                 (map (\<lambda>k. int ii + int k * int ni) [0..<n]))
       \<and> (allocator_of s = (int ii + int k * int ni, ni, ii) \<longrightarrow>
            fst (AllocatePage s) = Inr (int ii + int k * int ni)
            \<and> allocator_of (snd (AllocatePage s)) = (int ii + int (Suc k) * int ni, ni, ii))"
proof -
  let ?s0 = "\<lparr>pool_size = pool, num_instances = ni, instance_index = ii,
                next_page_id = int ii,
                pages = replicate pool (new_Page PAGE_SIZE),
                replacer = LRUReplacer_new pool,
                free_list = [0..<pool],
                page_table = [],
                disk_manager = dm\<rparr>"
  have c: "BufferPoolManagerInstance_new PAGE_SIZE pool ni ii dm = Inr ?s0"
    using assms by (simp add: BufferPoolManagerInstance_new_def)
  have m: "next_page_id ?s0 mod int (num_instances ?s0) = int (instance_index ?s0)"
    using assms by simp
  have p: "0 < num_instances ?s0" using assms by simp
  have a: "fst (allocate_n n ?s0) = Inr (map (\<lambda>k. int ii + int k * int ni) [0..<n])"
    using allocate_n_ids [OF p m, of n] by simp
  have l: "list_all (\<lambda>pid. pid mod int ni = int ii) (map (\<lambda>k. int ii + int k * int ni) [0..<n])"
    using assms by (simp add: list_all_iff)
  have e: "\<exists>s0. BufferPoolManagerInstance_new PAGE_SIZE pool ni ii dm = Inr s0
            \<and> allocator_of s0 = (int ii, ni, ii)
            \<and> fst (allocate_n n s0) = Inr (map (\<lambda>k. int ii + int k * int ni) [0..<n])
            \<and> list_all (\<lambda>pid. pid mod int ni = int ii)
                 (map (\<lambda>k. int ii + int k * int ni) [0..<n])"
    using c a l by (simp add: allocator_of_def)
  have o: "allocator_of s = (int ii + int k * int ni, ni, ii) \<longrightarrow>
            fst (AllocatePage s) = Inr (int ii + int k * int ni)
            \<and> allocator_of (snd (AllocatePage s)) = (int ii + int (Suc k) * int ni, ni, ii)"
    using assms
    by (auto simp: allocator_of_def AllocatePage_def ValidatePageId_def Let_def algebra_simps)
  from e o show ?thesis by blast
qed

theorem AllocatePage_partition_witness:
  "(0::nat) < 3 \<and> (1::nat) < 3
   \<and> (\<exists>s0. BufferPoolManagerInstance_new 2 1 3 1 ex_disk = Inr s0
         \<and> allocator_of s0 = (1, 3, 1)
         \<and> fst (allocate_n 3 s0) = Inr [1, 4, 7])"
proof -
  have a: "(0::nat) < 3" by simp
  have b: "(1::nat) < 3" by simp
  have u: "[0..<3] = [0, 1, 2]" by (simp add: upt_rec)
  from AllocatePage_partition [OF a b, of 2 1 ex_disk 3] show ?thesis
    using a b by (simp add: u)
qed

end
